theory Spec2Isabelle
  imports Complex_Main "HOL-Library.Word" "HOL-Library.Sublist"
begin

section \<open>JavaScript values\<close>

text \<open>
  A JavaScript string is a sequence of UTF-16 code units. It is modelled as a list of
  natural numbers, one per code unit (values below \<open>0x10000\<close>); a \<open>Uint8Array\<close> is a
  list of 8-bit words. String literals of the source are written \<open>js ''...''\<close>.
\<close>

type_synonym jsstring = "nat list"
type_synonym byte = "8 word"

definition js :: "string \<Rightarrow> jsstring" where
  "js s = map of_char s"

text \<open>A thrown \<open>Error\<close> object, with its \<open>message\<close> property.\<close>

datatype thrown = Thrown (message: jsstring)

text \<open>
  \<open>WhiteSpace\<close> and \<open>LineTerminator\<close> of ECMAScript: what \<open>\s\<close> matches in a regular
  expression and what \<open>parseInt\<close> skips.
\<close>

definition is_space :: "nat \<Rightarrow> bool" where
  "is_space c \<longleftrightarrow>
     c = 9 \<or> c = 10 \<or> c = 11 \<or> c = 12 \<or> c = 13 \<or> c = 32 \<or> c = 160 \<or> c = 0x1680 \<or>
     (0x2000 \<le> c \<and> c \<le> 0x200A) \<or> c = 0x2028 \<or> c = 0x2029 \<or> c = 0x202F \<or>
     c = 0x205F \<or> c = 0x3000 \<or> c = 0xFEFF"

definition is_digit :: "nat \<Rightarrow> bool" where
  "is_digit c \<longleftrightarrow> 48 \<le> c \<and> c \<le> 57"

text \<open>The value of a character as a digit in a radix up to 36; 36 when it is no digit.\<close>

definition digit_value :: "nat \<Rightarrow> nat" where
  "digit_value c =
     (if 48 \<le> c \<and> c \<le> 57 then c - 48
      else if 97 \<le> c \<and> c \<le> 122 then c - 87
      else if 65 \<le> c \<and> c \<le> 90 then c - 55
      else 36)"

definition digits_value :: "nat \<Rightarrow> jsstring \<Rightarrow> nat" where
  "digits_value R ds = foldl (\<lambda>a c. a * R + digit_value c) 0 ds"

text \<open>
  \<open>parseInt(string, radix)\<close>: leading white space and a sign are skipped, a \<open>0x\<close> prefix
  selects radix 16 when no other radix is given, the longest prefix of digits is read,
  and the result is \<open>NaN\<close> (here \<open>None\<close>) when there is no digit. The radix argument is
  \<open>None\<close> when the call passes none. The value is the exact integer: JavaScript rounds
  it to a double, which is the same number below \<open>2 ^ 53\<close> and is monotone above.
\<close>

definition parseInt :: "jsstring \<Rightarrow> nat option \<Rightarrow> int option" where
  "parseInt s radix =
     (let t = dropWhile is_space s;
          neg = (case t of [] \<Rightarrow> False | c # _ \<Rightarrow> c = 45);
          t1 = (case t of [] \<Rightarrow> [] | c # r \<Rightarrow> if c = 45 \<or> c = 43 then r else t);
          hex = ((radix = None \<or> radix = Some 0 \<or> radix = Some 16) \<and>
                 (prefix (js ''0x'') t1 \<or> prefix (js ''0X'') t1));
          R = (if hex then 16 else case radix of None \<Rightarrow> 10 | Some r \<Rightarrow> if r = 0 then 10 else r);
          t2 = (if hex then drop 2 t1 else t1);
          ds = takeWhile (\<lambda>c. digit_value c < R) t2
      in if R < 2 \<or> 36 < R \<or> ds = [] then None
         else Some ((if neg then - 1 else 1) * int (digits_value R ds)))"


section \<open>Transport codec\<close>

subsection \<open>\<open>TextEncoder\<close> and \<open>TextDecoder\<close> (UTF-8)\<close>

definition is_lead :: "nat \<Rightarrow> bool" where
  "is_lead u \<longleftrightarrow> 0xD800 \<le> u \<and> u \<le> 0xDBFF"

definition is_trail :: "nat \<Rightarrow> bool" where
  "is_trail u \<longleftrightarrow> 0xDC00 \<le> u \<and> u \<le> 0xDFFF"

definition is_surrogate :: "nat \<Rightarrow> bool" where
  "is_surrogate u \<longleftrightarrow> 0xD800 \<le> u \<and> u \<le> 0xDFFF"

text \<open>
  The conversion of a JavaScript string to scalar values that \<open>TextEncoder.encode\<close>
  applies first: a surrogate pair is one code point, a lone surrogate becomes U+FFFD.
\<close>

fun scalar_values :: "jsstring \<Rightarrow> nat list" where
  "scalar_values [] = []"
| "scalar_values [u] = [if is_surrogate u then 0xFFFD else u]"
| "scalar_values (u # v # us) =
     (if is_lead u \<and> is_trail v
      then (0x10000 + (u - 0xD800) * 0x400 + (v - 0xDC00)) # scalar_values us
      else (if is_surrogate u then 0xFFFD else u) # scalar_values (v # us))"

definition utf8_encode_cp :: "nat \<Rightarrow> byte list" where
  "utf8_encode_cp c =
     (if c < 0x80 then [of_nat c]
      else if c < 0x800 then [of_nat (0xC0 + c div 0x40), of_nat (0x80 + c mod 0x40)]
      else if c < 0x10000 then
        [of_nat (0xE0 + c div 0x1000), of_nat (0x80 + (c div 0x40) mod 0x40),
         of_nat (0x80 + c mod 0x40)]
      else
        [of_nat (0xF0 + c div 0x40000), of_nat (0x80 + (c div 0x1000) mod 0x40),
         of_nat (0x80 + (c div 0x40) mod 0x40), of_nat (0x80 + c mod 0x40)])"

definition TextEncoder_encode :: "jsstring \<Rightarrow> byte list" where
  "TextEncoder_encode s = concat (map utf8_encode_cp (scalar_values s))"

text \<open>
  The UTF-8 decoder of the Encoding standard, as a state machine over the bytes: the
  code point collected so far, the bytes seen and needed, and the bounds of the next
  continuation byte. A malformed sequence yields U+FFFD and the offending byte is read
  again in the initial state.
\<close>

fun utf8_decode :: "nat \<Rightarrow> nat \<Rightarrow> nat \<Rightarrow> nat \<Rightarrow> nat \<Rightarrow> byte list \<Rightarrow> nat list" where
  "utf8_decode cp seen needed lo hi [] = (if needed \<noteq> 0 then [0xFFFD] else [])"
| "utf8_decode cp seen needed lo hi (b # bs) =
     (if needed = 0 then
        (if unat b \<le> 0x7F then unat b # utf8_decode 0 0 0 0x80 0xBF bs
         else if 0xC2 \<le> unat b \<and> unat b \<le> 0xDF then
           utf8_decode (unat b mod 32) 0 1 0x80 0xBF bs
         else if 0xE0 \<le> unat b \<and> unat b \<le> 0xEF then
           utf8_decode (unat b mod 16) 0 2
             (if unat b = 0xE0 then 0xA0 else 0x80) (if unat b = 0xED then 0x9F else 0xBF) bs
         else if 0xF0 \<le> unat b \<and> unat b \<le> 0xF4 then
           utf8_decode (unat b mod 8) 0 3
             (if unat b = 0xF0 then 0x90 else 0x80) (if unat b = 0xF4 then 0x8F else 0xBF) bs
         else 0xFFFD # utf8_decode 0 0 0 0x80 0xBF bs)
      else if unat b < lo \<or> hi < unat b then 0xFFFD # utf8_decode 0 0 0 0x80 0xBF (b # bs)
      else if seen + 1 \<noteq> needed then
        utf8_decode (cp * 64 + unat b mod 64) (seen + 1) needed 0x80 0xBF bs
      else (cp * 64 + unat b mod 64) # utf8_decode 0 0 0 0x80 0xBF bs)"

definition utf16_units :: "nat \<Rightarrow> jsstring" where
  "utf16_units c =
     (if c < 0x10000 then [c]
      else [0xD800 + (c - 0x10000) div 0x400, 0xDC00 + (c - 0x10000) mod 0x400])"

text \<open>
  \<open>new TextDecoder()\<close> has \<open>ignoreBOM = false\<close>: a byte order mark at the start of the
  input is consumed and does not appear in the decoded string.
\<close>

definition strip_bom :: "byte list \<Rightarrow> byte list" where
  "strip_bom bs = (if prefix [0xEF, 0xBB, 0xBF] bs then drop 3 bs else bs)"

definition TextDecoder_decode :: "byte list \<Rightarrow> jsstring" where
  "TextDecoder_decode bs =
     concat (map utf16_units (utf8_decode 0 0 0 0x80 0xBF (strip_bom bs)))"

subsection \<open>\<open>btoa\<close> and \<open>atob\<close> (base64)\<close>

definition b64_char :: "nat \<Rightarrow> nat" where
  "b64_char i =
     (if i < 26 then 65 + i else if i < 52 then 71 + i else if i < 62 then i - 4
      else if i = 62 then 43 else 47)"

definition b64_index :: "nat \<Rightarrow> nat option" where
  "b64_index c =
     (if 65 \<le> c \<and> c \<le> 90 then Some (c - 65)
      else if 97 \<le> c \<and> c \<le> 122 then Some (c - 71)
      else if 48 \<le> c \<and> c \<le> 57 then Some (c + 4)
      else if c = 43 then Some 62
      else if c = 47 then Some 63
      else None)"

fun b64_encode :: "nat list \<Rightarrow> jsstring" where
  "b64_encode [] = []"
| "b64_encode [a] = [b64_char (a div 4), b64_char (a mod 4 * 16), 61, 61]"
| "b64_encode [a, b] =
     [b64_char (a div 4), b64_char (a mod 4 * 16 + b div 16), b64_char (b mod 16 * 4), 61]"
| "b64_encode (a # b # c # r) =
     [b64_char (a div 4), b64_char (a mod 4 * 16 + b div 16),
      b64_char (b mod 16 * 4 + c div 64), b64_char (c mod 64)] @ b64_encode r"

fun b64_decode :: "nat list \<Rightarrow> nat list" where
  "b64_decode (p # q # r # s # rest) =
     [p * 4 + q div 16, q mod 16 * 16 + r div 4, r mod 4 * 64 + s] @ b64_decode rest"
| "b64_decode [p, q, r] = [p * 4 + q div 16, q mod 16 * 16 + r div 4]"
| "b64_decode [p, q] = [p * 4 + q div 16]"
| "b64_decode _ = []"

definition InvalidCharacterError :: thrown where
  "InvalidCharacterError = Thrown (js ''Invalid character'')"

text \<open>\<open>btoa\<close> throws when the string holds a code unit above 255.\<close>

definition btoa :: "jsstring \<Rightarrow> thrown + jsstring" where
  "btoa s = (if \<exists>c \<in> set s. 255 < c then Inl InvalidCharacterError else Inr (b64_encode s))"

definition is_ascii_space :: "nat \<Rightarrow> bool" where
  "is_ascii_space c \<longleftrightarrow> c = 9 \<or> c = 10 \<or> c = 12 \<or> c = 13 \<or> c = 32"

definition strip_padding :: "jsstring \<Rightarrow> jsstring" where
  "strip_padding t =
     (if length t mod 4 = 0 \<and> t \<noteq> [] \<and> last t = 61
      then (if butlast t \<noteq> [] \<and> last (butlast t) = 61 then butlast (butlast t) else butlast t)
      else t)"

text \<open>
  \<open>atob\<close> (forgiving base64 decoding): ASCII white space is removed, up to two padding
  characters are dropped when the length is a multiple of four, and the call throws when
  the remaining length is 1 modulo 4 or a character is outside the alphabet.
\<close>

definition atob :: "jsstring \<Rightarrow> thrown + jsstring" where
  "atob s =
     (let t = strip_padding (filter (\<lambda>c. \<not> is_ascii_space c) s)
      in if length t mod 4 = 1 then Inl InvalidCharacterError
         else case those (map b64_index t) of
                None \<Rightarrow> Inl InvalidCharacterError
              | Some sextets \<Rightarrow> Inr (b64_decode sextets))"

subsection \<open>\<open>compressString\<close> and \<open>decompressHtml\<close>\<close>

text \<open>
  The gzip streams are the platform's: \<open>CompressionStream\<close> is a function from the bytes
  written to the chunks read, \<open>DecompressionStream\<close> likewise, throwing on input that is
  not gzip data. Both are parameters of the model.
\<close>

type_synonym compressor = "byte list \<Rightarrow> byte list list"
type_synonym decompressor = "byte list \<Rightarrow> thrown + byte list list"

definition chunkSize :: nat where
  "chunkSize = 32768"

text \<open>
  The loop \<open>for (let i = 0; i < compressedData.length; i += chunkSize)\<close> that appends
  \<open>String.fromCharCode.apply(null, compressedData.subarray(i, i + chunkSize))\<close>.
\<close>

function fromCharCode_chunks :: "nat \<Rightarrow> byte list \<Rightarrow> jsstring \<Rightarrow> jsstring" where
  "fromCharCode_chunks i compressedData binary =
     (if i < length compressedData
      then fromCharCode_chunks (i + chunkSize) compressedData
             (binary @ map unat (take chunkSize (drop i compressedData)))
      else binary)"
  by pat_completeness auto
termination
  by (relation "measure (\<lambda>(i, d, b). length d - i)") (auto simp: chunkSize_def)

declare fromCharCode_chunks.simps [simp del]

definition compressString :: "compressor \<Rightarrow> jsstring \<Rightarrow> thrown + jsstring" where
  "compressString gzip str =
     (let data = TextEncoder_encode str;
          compressedChunks = gzip data;
          compressedData = concat compressedChunks
      in btoa (fromCharCode_chunks 0 compressedData []))"

definition decompressHtml :: "decompressor \<Rightarrow> jsstring \<Rightarrow> thrown + jsstring" where
  "decompressHtml gunzip base64Data =
     (case atob base64Data of
        Inl e \<Rightarrow> Inl e
      | Inr binaryString \<Rightarrow>
          (case gunzip (map of_nat binaryString) of
             Inl e \<Rightarrow> Inl e
           | Inr decompressedChunks \<Rightarrow> Inr (TextDecoder_decode (concat decompressedChunks))))"


section \<open>Snapshot store worker\<close>

text \<open>
  The repository holds two workers: the plain one stores the uploaded \<open>html\<close> as it is,
  the other one (names suffixed \<open>_gz\<close>) accepts a compressed \<open>html\<close>. \<open>generateId\<close>,
  \<open>parseExpiration\<close> and \<open>handleServe\<close> are the same text in both.

  A time is the number of milliseconds since the epoch; an ISO timestamp string is
  represented by the time it denotes.
\<close>

definition MAX_SIZE :: int where
  "MAX_SIZE = 10 * 1024 * 1024"

definition MAX_SIZE_gz :: int where
  "MAX_SIZE_gz = 50 * 1024 * 1024"

definition chars :: jsstring where
  "chars = js ''abcdefghijklmnopqrstuvwxyzABCDEFGHIJKLMNOPQRSTUVWXYZ0123456789''"

text \<open>
  \<open>rnd i\<close> is the value of \<open>Math.floor(Math.random() * chars.length)\<close> in round \<open>i\<close> of
  the loop, a number below 62.
\<close>

definition generateId :: "(nat \<Rightarrow> nat) \<Rightarrow> jsstring" where
  "generateId rnd = map (\<lambda>i. chars ! rnd i) [0..<8]"

text \<open>
  A value of the parsed request body. \<open>parseExpiration\<close> receives the \<open>expiresIn\<close>
  property as \<open>JSON.parse\<close> produced it, whatever its type; a property that the body does
  not have (\<open>undefined\<close>) is \<open>None\<close>.
\<close>

datatype json_value =
    JNull
  | JBool bool
  | JNumber real
  | JString jsstring
  | JArray "json_value list"
  | JObject "(jsstring \<times> json_value) list"

text \<open>\<open>!v\<close>: the values that JavaScript takes for false.\<close>

definition falsy :: "json_value option \<Rightarrow> bool" where
  "falsy v \<longleftrightarrow>
     v = None \<or> v = Some JNull \<or> v = Some (JBool False) \<or> v = Some (JNumber 0) \<or>
     v = Some (JString [])"

text \<open>The regular expression \<open>/^(\d+)([dhm])$/\<close>: the two groups of a match.\<close>

definition match_expiration :: "jsstring \<Rightarrow> (jsstring \<times> nat) option" where
  "match_expiration s =
     (case dropWhile is_digit s of
        [u] \<Rightarrow>
          if takeWhile is_digit s \<noteq> [] \<and>
             (u = of_char CHR ''d'' \<or> u = of_char CHR ''h'' \<or> u = of_char CHR ''m'')
          then Some (takeWhile is_digit s, u) else None
      | _ \<Rightarrow> None)"

definition multipliers :: "nat \<Rightarrow> int" where
  "multipliers unit =
     (if unit = of_char CHR ''m'' then 60 * 1000
      else if unit = of_char CHR ''h'' then 60 * 60 * 1000
      else 24 * 60 * 60 * 1000)"

text \<open>
  \<open>new Date(t).toISOString()\<close>: a \<open>Date\<close> holds times of magnitude up to
  \<open>8.64e15\<close> only, and \<open>toISOString\<close> throws a \<open>RangeError\<close> on an invalid date.
\<close>

definition RangeError :: thrown where
  "RangeError = Thrown (js ''Invalid time value'')"

definition toISOString :: "int \<Rightarrow> thrown + int" where
  "toISOString t = (if \<bar>t\<bar> > 8640000000000000 then Inl RangeError else Inr t)"

text \<open>
  \<open>parseExpiration\<close>, with the clock \<open>now\<close> that \<open>Date.now()\<close> reads. Only a string has
  a \<open>match\<close> method: on any other value that is not false, \<open>expiresIn.match(...)\<close> throws
  a \<open>TypeError\<close>.
\<close>

definition not_a_function :: thrown where
  "not_a_function = Thrown (js ''expiresIn.match is not a function'')"

definition parseExpiration :: "int \<Rightarrow> json_value option \<Rightarrow> thrown + int option" where
  "parseExpiration now expiresIn =
     (if falsy expiresIn \<or> expiresIn = Some (JString (js ''never'')) then Inr None
      else case expiresIn of
        Some (JString e) \<Rightarrow>
          (case match_expiration e of
             None \<Rightarrow> Inr None
           | Some (digits, unit) \<Rightarrow>
               (case parseInt digits (Some 10) of
                  None \<Rightarrow> Inl RangeError
                | Some v \<Rightarrow>
                    (case toISOString (now + v * multipliers unit) of
                       Inl err \<Rightarrow> Inl err
                     | Inr stamp \<Rightarrow> Inr (Some stamp))))
      | _ \<Rightarrow> Inl not_a_function)"

text \<open>
  Requests, responses and the bucket \<open>env.SNAPSHOTS\<close>. Of the body, \<open>html\<close>, \<open>title\<close> and
  \<open>sourceUrl\<close> are strings when they are present, as the extension sends them.
\<close>

record upload_body =
  html :: "jsstring option"
  compressed :: bool
  title :: "jsstring option"
  sourceUrl :: "jsstring option"
  expiresIn :: "json_value option"

text \<open>
  \<open>contentLength\<close> is the \<open>Content-Length\<close> header when the request has one; \<open>json\<close> is
  what \<open>request.json()\<close> gives: the parsed body, or the error it throws on a body that is
  not JSON. \<open>origin\<close> and \<open>search\<close> are the parts of \<open>request.url\<close> around the path.
\<close>

record request =
  contentLength :: "jsstring option"
  json :: "thrown + upload_body"
  origin :: jsstring
  search :: jsstring

record metadata =
  meta_title :: jsstring
  meta_sourceUrl :: jsstring
  createdAt :: int
  expiresAt :: "int option"

record r2object =
  body :: jsstring
  contentType :: string
  customMetadata :: "metadata option"

type_synonym bucket = "jsstring \<rightharpoonup> r2object"

text \<open>
  \<open>env.SNAPSHOTS.put\<close> does not accept everything: the bucket bounds the size of the
  custom metadata, for one. What it rejects is the platform's matter, so the check is a
  parameter of the upload handlers: \<open>put_error key object\<close> is the error that \<open>put\<close>
  throws for this key and object, \<open>None\<close> when it stores the object.
\<close>

type_synonym put_check = "jsstring \<Rightarrow> r2object \<Rightarrow> thrown option"

datatype header_value = Plain string | Iso int | Str jsstring

datatype payload =
    JsonError jsstring
  | JsonUploaded jsstring jsstring "int option"
  | Text string
  | Document jsstring

record response =
  status :: nat
  headers :: "(string \<times> header_value) list"
  payload :: payload

definition corsHeaders :: "(string \<times> header_value) list" where
  "corsHeaders =
     [(''Access-Control-Allow-Origin'', Plain ''*''),
      (''Access-Control-Allow-Methods'', Plain ''GET, POST, OPTIONS''),
      (''Access-Control-Allow-Headers'', Plain ''Content-Type'')]"

definition json_response :: "nat \<Rightarrow> payload \<Rightarrow> response" where
  "json_response st p =
     \<lparr>status = st, headers = (''Content-Type'', Plain ''application/json'') # corsHeaders,
      payload = p\<rparr>"

text \<open>\<open>x || d\<close> on an optional string: \<open>d\<close> when \<open>x\<close> is missing or empty.\<close>

definition or_default :: "jsstring option \<Rightarrow> jsstring \<Rightarrow> jsstring" where
  "or_default x d = (case x of None \<Rightarrow> d | Some v \<Rightarrow> if v = [] then d else v)"

definition too_large :: "int \<Rightarrow> jsstring option \<Rightarrow> bool" where
  "too_large limit header =
     (case header of
        None \<Rightarrow> False
      | Some cl \<Rightarrow> cl \<noteq> [] \<and> (case parseInt cl None of None \<Rightarrow> False | Some n \<Rightarrow> limit < n))"

text \<open>
  The steps of \<open>handleUpload\<close> from \<open>generateId()\<close> on, the same text in both workers.
  They run inside the handler's \<open>try\<close>: an error thrown by \<open>parseExpiration\<close> or by
  \<open>put\<close> is answered 500 by the \<open>catch\<close>, and nothing is stored.
\<close>

definition store_snapshot ::
  "put_check \<Rightarrow> (nat \<Rightarrow> nat) \<Rightarrow> int \<Rightarrow> int \<Rightarrow> bucket \<Rightarrow> request \<Rightarrow> upload_body \<Rightarrow> jsstring \<Rightarrow>
     response \<times> bucket"
where
  "store_snapshot put_error rnd now created SNAPSHOTS request b content =
     (let id = generateId rnd in
      case parseExpiration now (expiresIn b) of
        Inl err \<Rightarrow>
          (json_response 500 (JsonError (js ''Upload failed: '' @ message err)), SNAPSHOTS)
      | Inr expires \<Rightarrow>
          (let object =
             \<lparr>body = content, contentType = ''text/html; charset=utf-8'',
              customMetadata = Some
                \<lparr>meta_title = or_default (title b) (js ''Untitled''),
                 meta_sourceUrl = or_default (sourceUrl b) [],
                 createdAt = created, expiresAt = expires\<rparr>\<rparr>
           in case put_error id object of
                Some err \<Rightarrow>
                  (json_response 500 (JsonError (js ''Upload failed: '' @ message err)),
                   SNAPSHOTS)
              | None \<Rightarrow>
                  (json_response 200
                     (JsonUploaded id (origin request @ js ''/'' @ id @ search request) expires),
                   SNAPSHOTS(id \<mapsto> object))))"

text \<open>
  \<open>handleUpload\<close> of the plain worker. \<open>now\<close> is the clock read by \<open>parseExpiration\<close>,
  \<open>created\<close> the one read for \<open>createdAt\<close>.
\<close>

definition handleUpload ::
  "put_check \<Rightarrow> (nat \<Rightarrow> nat) \<Rightarrow> int \<Rightarrow> int \<Rightarrow> bucket \<Rightarrow> request \<Rightarrow> response \<times> bucket"
where
  "handleUpload put_error rnd now created SNAPSHOTS request =
     (if too_large MAX_SIZE (contentLength request)
      then (json_response 413 (JsonError (js ''Content too large'')), SNAPSHOTS)
      else case json request of
        Inl err \<Rightarrow>
          (json_response 500 (JsonError (js ''Upload failed: '' @ message err)), SNAPSHOTS)
      | Inr b \<Rightarrow>
          (case html b of
             None \<Rightarrow> (json_response 400 (JsonError (js ''Missing html content'')), SNAPSHOTS)
           | Some h \<Rightarrow>
               if h = [] then
                 (json_response 400 (JsonError (js ''Missing html content'')), SNAPSHOTS)
               else if MAX_SIZE < int (length (TextEncoder_encode h)) then
                 (json_response 413 (JsonError (js ''Content too large'')), SNAPSHOTS)
               else store_snapshot put_error rnd now created SNAPSHOTS request b h))"

definition handleUpload_gz ::
  "decompressor \<Rightarrow> put_check \<Rightarrow> (nat \<Rightarrow> nat) \<Rightarrow> int \<Rightarrow> int \<Rightarrow> bucket \<Rightarrow> request \<Rightarrow>
     response \<times> bucket"
where
  "handleUpload_gz gunzip put_error rnd now created SNAPSHOTS request =
     (if too_large MAX_SIZE_gz (contentLength request)
      then (json_response 413 (JsonError (js ''Content too large'')), SNAPSHOTS)
      else case json request of
        Inl err \<Rightarrow>
          (json_response 500 (JsonError (js ''Upload failed: '' @ message err)), SNAPSHOTS)
      | Inr b \<Rightarrow>
          (case html b of
             None \<Rightarrow> (json_response 400 (JsonError (js ''Missing html content'')), SNAPSHOTS)
           | Some h \<Rightarrow>
               if h = [] then
                 (json_response 400 (JsonError (js ''Missing html content'')), SNAPSHOTS)
               else if compressed b then
                 (case decompressHtml gunzip h of
                    Inl e \<Rightarrow>
                      (json_response 400
                         (JsonError (js ''Failed to decompress: '' @ message e)), SNAPSHOTS)
                  | Inr finalHtml \<Rightarrow>
                      store_snapshot put_error rnd now created SNAPSHOTS request b finalHtml)
               else store_snapshot put_error rnd now created SNAPSHOTS request b h))"

text \<open>
  \<open>Headers.set(name, value)\<close> as the Fetch standard prescribes: the value is a byte
  string (a code unit above 255 is a \<open>TypeError\<close>); leading and trailing HTTP white space
  is removed; what remains must hold no NUL, line feed or carriage return, or \<open>set\<close>
  throws a \<open>TypeError\<close>.
\<close>

definition is_http_whitespace :: "nat \<Rightarrow> bool" where
  "is_http_whitespace c \<longleftrightarrow> c = 9 \<or> c = 10 \<or> c = 13 \<or> c = 32"

definition normalize_header_value :: "jsstring \<Rightarrow> jsstring" where
  "normalize_header_value v =
     rev (dropWhile is_http_whitespace (rev (dropWhile is_http_whitespace v)))"

definition invalid_header_value :: thrown where
  "invalid_header_value = Thrown (js ''Invalid header value.'')"

definition headers_set ::
  "(string \<times> header_value) list \<Rightarrow> string \<Rightarrow> jsstring \<Rightarrow> thrown + (string \<times> header_value) list"
where
  "headers_set hs name v =
     (if list_ex (\<lambda>c. 255 < c) v \<or>
         list_ex (\<lambda>c. c = 0 \<or> c = 10 \<or> c = 13) (normalize_header_value v)
      then Inl invalid_header_value
      else Inr (hs @ [(name, Str (normalize_header_value v))]))"

text \<open>
  \<open>handleServe\<close>: \<open>key\<close> is the identifier of the path, \<open>now\<close> the clock read by
  \<open>new Date()\<close>. The object's metadata is \<open>object.customMetadata || {}\<close>, so an object
  stored without metadata has no expiry and no source. The whole handler is one \<open>try\<close>
  whose \<open>catch\<close> answers 500; what can throw in it for a given bucket is the
  \<open>headers.set\<close> of \<open>X-Source-Url\<close>, whose value is the stored \<open>sourceUrl\<close> as uploaded
  (\<open>X-Expires-At\<close> is set to an ISO timestamp, always a legal value).
\<close>

definition serve_headers :: "r2object \<Rightarrow> thrown + (string \<times> header_value) list" where
  "serve_headers object =
     (let metadata_expiresAt = (case customMetadata object of None \<Rightarrow> None | Some m \<Rightarrow> expiresAt m);
          metadata_sourceUrl = (case customMetadata object of None \<Rightarrow> [] | Some m \<Rightarrow> meta_sourceUrl m);
          hs = [(''Content-Type'', Plain ''text/html; charset=utf-8''),
                (''Cache-Control'', Plain ''public, max-age=3600'')] @
               (case metadata_expiresAt of None \<Rightarrow> [] | Some t \<Rightarrow> [(''X-Expires-At'', Iso t)])
      in if metadata_sourceUrl = [] then Inr hs
         else headers_set hs ''X-Source-Url'' metadata_sourceUrl)"

definition handleServe :: "int \<Rightarrow> bucket \<Rightarrow> jsstring \<Rightarrow> response \<times> bucket" where
  "handleServe now SNAPSHOTS key =
     (case SNAPSHOTS key of
        None \<Rightarrow> (\<lparr>status = 404, headers = [], payload = Text ''Snapshot not found''\<rparr>, SNAPSHOTS)
      | Some object \<Rightarrow>
          if (case customMetadata object of
                None \<Rightarrow> False
              | Some m \<Rightarrow> (case expiresAt m of None \<Rightarrow> False | Some t \<Rightarrow> t < now))
          then (\<lparr>status = 410, headers = [], payload = Text ''Snapshot has expired''\<rparr>,
                SNAPSHOTS(key := None))
          else (case serve_headers object of
                  Inl err \<Rightarrow>
                    (\<lparr>status = 500, headers = [], payload = Text ''Error retrieving snapshot''\<rparr>,
                     SNAPSHOTS)
                | Inr hs \<Rightarrow>
                    (\<lparr>status = 200, headers = hs, payload = Document (body object)\<rparr>,
                     SNAPSHOTS)))"

section \<open>Properties of the snapshot store worker\<close>

subsection \<open>Example requests and buckets\<close>

text \<open>
  A bucket whose \<open>put\<close> rejects custom metadata of more than 8192 bytes, counting the
  title and the source URL, and accepts everything else whatever the size of the body.
\<close>

definition metadata_limit :: put_check where
  "metadata_limit key object =
     (case customMetadata object of
        None \<Rightarrow> None
      | Some m \<Rightarrow>
          if 8192 < length (TextEncoder_encode (meta_title m)) +
                    length (TextEncoder_encode (meta_sourceUrl m))
          then Some (Thrown (js ''put: metadata too large''))
          else None)"

definition hi_object :: "int option \<Rightarrow> r2object" where
  "hi_object expiry =
     \<lparr>body = js ''<p>hi</p>'', contentType = ''text/html; charset=utf-8'',
      customMetadata = Some \<lparr>meta_title = js ''Untitled'', meta_sourceUrl = [],
        createdAt = 0, expiresAt = expiry\<rparr>\<rparr>"

text \<open>A small upload of \<open><p>hi</p>\<close>, and a decompressor that rejects every input.\<close>

definition hi_request :: "jsstring option \<Rightarrow> json_value option \<Rightarrow> request" where
  "hi_request source e =
     \<lparr>contentLength = Some (js ''64''),
      json = Inr \<lparr>html = Some (js ''<p>hi</p>''), compressed = False, title = None,
        sourceUrl = source, expiresIn = e\<rparr>,
      origin = js ''https://snapshots.example'', search = []\<rparr>"

definition no_gunzip :: decompressor where
  "no_gunzip data = Inl (Thrown (js ''incorrect header check''))"

lemma js_Nil [simp]: "js s = [] \<longleftrightarrow> s = []"
  by (simp add: js_def)

lemma scalar_values_ascii: "\<forall>u\<in>set s. u < 0x80 \<Longrightarrow> scalar_values s = s"
  by (induction s rule: scalar_values.induct) (auto simp: is_lead_def is_surrogate_def)

lemma length_encode_ascii:
  assumes "\<forall>u\<in>set s. u < 0x80"
  shows "length (TextEncoder_encode s) = length s"
proof -
  have "length (concat (map utf8_encode_cp t)) = length t" if "\<forall>u\<in>set t. u < 0x80" for t
    using that by (induction t) (auto simp: utf8_encode_cp_def)
  with assms show ?thesis
    by (simp add: TextEncoder_encode_def scalar_values_ascii)
qed

lemma metadata_limit_accepts:
  assumes "\<forall>u\<in>set t. u < 0x80" "\<forall>u\<in>set s. u < 0x80" "length t + length s \<le> 8192"
  shows "metadata_limit key
     \<lparr>body = content, contentType = ct,
      customMetadata = Some \<lparr>meta_title = t, meta_sourceUrl = s, createdAt = c, expiresAt = e\<rparr>\<rparr> = None"
  using assms by (simp add: metadata_limit_def length_encode_ascii)

lemma hi_encoded: "TextEncoder_encode (js ''<p>hi</p>'') = [60, 112, 62, 104, 105, 60, 47, 112, 62]"
  by (simp add: TextEncoder_encode_def js_def is_lead_def is_surrogate_def utf8_encode_cp_def)

lemma hi_small: "\<not> MAX_SIZE < int (length (TextEncoder_encode (js ''<p>hi</p>'')))"
  by (simp add: hi_encoded MAX_SIZE_def)

lemma hi_not_too_large:
  "\<not> too_large MAX_SIZE (Some (js ''64''))" "\<not> too_large MAX_SIZE_gz (Some (js ''64''))"
  by (simp_all add: too_large_def parseInt_def js_def is_space_def digit_value_def
      digits_value_def MAX_SIZE_def MAX_SIZE_gz_def Let_def)

lemma hi_upload:
  "handleUpload put_error rnd now created SNAPSHOTS (hi_request source e) =
     store_snapshot put_error rnd now created SNAPSHOTS (hi_request source e)
       \<lparr>html = Some (js ''<p>hi</p>''), compressed = False, title = None,
        sourceUrl = source, expiresIn = e\<rparr> (js ''<p>hi</p>'')"
  unfolding handleUpload_def hi_request_def
  by (simp add: hi_not_too_large hi_small)

lemma hi_upload_gz:
  "handleUpload_gz gunzip put_error rnd now created SNAPSHOTS (hi_request source e) =
     store_snapshot put_error rnd now created SNAPSHOTS (hi_request source e)
       \<lparr>html = Some (js ''<p>hi</p>''), compressed = False, title = None,
        sourceUrl = source, expiresIn = e\<rparr> (js ''<p>hi</p>'')"
  unfolding handleUpload_gz_def hi_request_def
  by (simp add: hi_not_too_large)

text \<open>What the two workers do with the small upload when it names no source.\<close>

lemma hi_stored:
  assumes "parseExpiration now e = Inr expires"
  shows "store_snapshot metadata_limit rnd now created SNAPSHOTS (hi_request None e)
       \<lparr>html = Some (js ''<p>hi</p>''), compressed = False, title = None,
        sourceUrl = None, expiresIn = e\<rparr> (js ''<p>hi</p>'') =
     (json_response 200
        (JsonUploaded (generateId rnd)
           (js ''https://snapshots.example'' @ js ''/'' @ generateId rnd @ []) expires),
      SNAPSHOTS(generateId rnd \<mapsto>
        \<lparr>body = js ''<p>hi</p>'', contentType = ''text/html; charset=utf-8'',
         customMetadata = Some \<lparr>meta_title = js ''Untitled'', meta_sourceUrl = [],
           createdAt = created, expiresAt = expires\<rparr>\<rparr>))"
proof -
  have "metadata_limit (generateId rnd)
     \<lparr>body = js ''<p>hi</p>'', contentType = ''text/html; charset=utf-8'',
      customMetadata = Some \<lparr>meta_title = js ''Untitled'', meta_sourceUrl = [],
        createdAt = created, expiresAt = expires\<rparr>\<rparr> = None"
    by (rule metadata_limit_accepts) (auto simp: js_def)
  with assms show ?thesis
    by (simp add: store_snapshot_def Let_def or_default_def hi_request_def)
qed

subsection \<open>Serving a snapshot\<close>

lemma headers_set_legal:
  assumes "\<forall>c\<in>set v. c \<noteq> 0 \<and> c \<noteq> 10 \<and> c \<noteq> 13 \<and> c < 256"
  shows "headers_set hs name v = Inr (hs @ [(name, Str (normalize_header_value v))])"
proof -
  have "set (normalize_header_value v) \<subseteq> set v"
    unfolding normalize_header_value_def
    using set_dropWhileD [of _ is_http_whitespace "rev (dropWhile is_http_whitespace v)"]
      set_dropWhileD [of _ is_http_whitespace v]
    by auto
  with assms have "\<forall>c\<in>set (normalize_header_value v). c \<noteq> 0 \<and> c \<noteq> 10 \<and> c \<noteq> 13"
    by blast
  moreover from assms have "\<forall>c\<in>set v. \<not> 255 < c" by auto
  ultimately show ?thesis
    by (auto simp: headers_set_def list_ex_iff)
qed

lemma serve_headers_legal:
  assumes "\<forall>m. customMetadata object = Some m \<longrightarrow>
      (\<forall>c\<in>set (meta_sourceUrl m). c \<noteq> 0 \<and> c \<noteq> 10 \<and> c \<noteq> 13 \<and> c < 256)"
  shows "\<exists>hs. serve_headers object = Inr hs"
proof (cases "customMetadata object")
  case None
  then show ?thesis by (simp add: serve_headers_def)
next
  case (Some m)
  with assms have "\<forall>c\<in>set (meta_sourceUrl m). c \<noteq> 0 \<and> c \<noteq> 10 \<and> c \<noteq> 13 \<and> c < 256"
    by simp
  from headers_set_legal [OF this] Some show ?thesis
    by (simp add: serve_headers_def Let_def)
qed

text \<open>
  Claim C7, as amended. A \<open>GET /{id}\<close> answers 404 when the bucket has no entry under the
  identifier. When the \<open>expiresAt\<close> of the entry's metadata has passed, it answers 410 and
  the entry is deleted by that read (the rest of the bucket is untouched), so that any
  later \<open>GET\<close> of the same identifier answers 404. Otherwise, when the stored \<open>sourceUrl\<close>
  is a legal header value (no NUL, line feed or carriage return, and no code unit above
  255), it answers 200 with the stored document as the body, and the bucket is unchanged.
\<close>

theorem handleServe_statuses:
  "(SNAPSHOTS key = None \<longrightarrow>
      status (fst (handleServe now SNAPSHOTS key)) = 404 \<and>
      snd (handleServe now SNAPSHOTS key) = SNAPSHOTS) \<and>
   (\<forall>object m t. SNAPSHOTS key = Some object \<and> customMetadata object = Some m \<and>
        expiresAt m = Some t \<and> t < now \<longrightarrow>
      status (fst (handleServe now SNAPSHOTS key)) = 410 \<and>
      snd (handleServe now SNAPSHOTS key) = SNAPSHOTS(key := None) \<and>
      (\<forall>later. status (fst (handleServe later (snd (handleServe now SNAPSHOTS key)) key)) = 404)) \<and>
   (\<forall>object. SNAPSHOTS key = Some object \<and>
        (\<forall>m t. customMetadata object = Some m \<and> expiresAt m = Some t \<longrightarrow> now \<le> t) \<and>
        (\<forall>m. customMetadata object = Some m \<longrightarrow>
           (\<forall>c\<in>set (meta_sourceUrl m). c \<noteq> 0 \<and> c \<noteq> 10 \<and> c \<noteq> 13 \<and> c < 256)) \<longrightarrow>
      status (fst (handleServe now SNAPSHOTS key)) = 200 \<and>
      payload (fst (handleServe now SNAPSHOTS key)) = Document (body object) \<and>
      snd (handleServe now SNAPSHOTS key) = SNAPSHOTS)"
proof (intro conjI allI impI)
  assume "SNAPSHOTS key = None"
  then show "status (fst (handleServe now SNAPSHOTS key)) = 404"
    "snd (handleServe now SNAPSHOTS key) = SNAPSHOTS"
    by (simp_all add: handleServe_def)
next
  fix object m t
  assume a: "SNAPSHOTS key = Some object \<and> customMetadata object = Some m \<and>
        expiresAt m = Some t \<and> t < now"
  then have h: "handleServe now SNAPSHOTS key =
      (\<lparr>status = 410, headers = [], payload = Text ''Snapshot has expired''\<rparr>, SNAPSHOTS(key := None))"
    by (simp add: handleServe_def)
  show "status (fst (handleServe now SNAPSHOTS key)) = 410"
    "snd (handleServe now SNAPSHOTS key) = SNAPSHOTS(key := None)"
    by (simp_all add: h)
  fix later
  show "status (fst (handleServe later (snd (handleServe now SNAPSHOTS key)) key)) = 404"
    unfolding h by (simp add: handleServe_def)
next
  fix object
  assume a: "SNAPSHOTS key = Some object \<and>
        (\<forall>m t. customMetadata object = Some m \<and> expiresAt m = Some t \<longrightarrow> now \<le> t) \<and>
        (\<forall>m. customMetadata object = Some m \<longrightarrow>
           (\<forall>c\<in>set (meta_sourceUrl m). c \<noteq> 0 \<and> c \<noteq> 10 \<and> c \<noteq> 13 \<and> c < 256))"
  then obtain hs where hs: "serve_headers object = Inr hs"
    using serve_headers_legal [of object] by blast
  from a have e: "\<not> (case customMetadata object of
                None \<Rightarrow> False
              | Some m \<Rightarrow> (case expiresAt m of None \<Rightarrow> False | Some t \<Rightarrow> t < now))"
    by (auto split: option.splits)
  from a have k: "SNAPSHOTS key = Some object" by simp
  have h: "handleServe now SNAPSHOTS key =
      (\<lparr>status = 200, headers = hs, payload = Document (body object)\<rparr>, SNAPSHOTS)"
    unfolding handleServe_def k using e hs by simp
  show "status (fst (handleServe now SNAPSHOTS key)) = 200"
    "payload (fst (handleServe now SNAPSHOTS key)) = Document (body object)"
    "snd (handleServe now SNAPSHOTS key) = SNAPSHOTS"
    by (simp_all add: h)
qed

text \<open>
  The three cases on a bucket holding \<open><p>hi</p>\<close> that expires after one hour: read
  after two hours (410 and the entry is gone, then 404), read after half an hour (200),
  and a read of an empty bucket (404); and an entry without expiry, read after two hours
  (200).
\<close>

theorem handleServe_statuses_witness:
  "handleServe 7200000 [js ''aB3dE6gH'' \<mapsto> hi_object (Some 3600000)] (js ''aB3dE6gH'') =
     (\<lparr>status = 410, headers = [], payload = Text ''Snapshot has expired''\<rparr>, Map.empty) \<and>
   status (fst (handleServe 7200001
      (snd (handleServe 7200000 [js ''aB3dE6gH'' \<mapsto> hi_object (Some 3600000)] (js ''aB3dE6gH'')))
      (js ''aB3dE6gH''))) = 404 \<and>
   status (fst (handleServe 1800000 [js ''aB3dE6gH'' \<mapsto> hi_object (Some 3600000)] (js ''aB3dE6gH''))) = 200 \<and>
   payload (fst (handleServe 1800000 [js ''aB3dE6gH'' \<mapsto> hi_object (Some 3600000)] (js ''aB3dE6gH''))) = Document (js ''<p>hi</p>'') \<and>
   status (fst (handleServe 7200000 [js ''aB3dE6gH'' \<mapsto> hi_object None] (js ''aB3dE6gH''))) = 200 \<and>
   status (fst (handleServe 1800000 Map.empty (js ''aB3dE6gH''))) = 404"
  using handleServe_statuses [of "[js ''aB3dE6gH'' \<mapsto> hi_object (Some 3600000)]" "js ''aB3dE6gH''" 7200000]
    handleServe_statuses [of "[js ''aB3dE6gH'' \<mapsto> hi_object (Some 3600000)]" "js ''aB3dE6gH''" 1800000]
    handleServe_statuses [of "[js ''aB3dE6gH'' \<mapsto> hi_object None]" "js ''aB3dE6gH''" 7200000]
    handleServe_statuses [of "Map.empty" "js ''aB3dE6gH''" 1800000]
  by (auto simp add: hi_object_def handleServe_def)

text \<open>
  The claim as stated fails on the third case. An upload may name any string as its
  \<open>sourceUrl\<close>, and the worker stores it unchecked; when the string has a line feed
  inside, the upload is answered 200 and the entry is stored, but every read of it is
  answered 500: \<open>headers.set('X-Source-Url', ...)\<close> throws, and the handler's \<open>catch\<close>
  answers \<open>Error retrieving snapshot\<close>.
\<close>

definition two_lines :: jsstring where
  "two_lines = js ''https://a.example/'' @ [10] @ js ''x''"

theorem unexpired_entry_not_served:
  "status (fst (handleUpload metadata_limit (\<lambda>i. i) 1000 1001 Map.empty
      (hi_request (Some two_lines) None))) = 200 \<and>
   snd (handleUpload metadata_limit (\<lambda>i. i) 1000 1001 Map.empty
      (hi_request (Some two_lines) None)) (generateId (\<lambda>i. i)) =
     Some \<lparr>body = js ''<p>hi</p>'', contentType = ''text/html; charset=utf-8'',
       customMetadata = Some \<lparr>meta_title = js ''Untitled'', meta_sourceUrl = two_lines,
         createdAt = 1001, expiresAt = None\<rparr>\<rparr> \<and>
   fst (handleServe 2000
      (snd (handleUpload metadata_limit (\<lambda>i. i) 1000 1001 Map.empty
         (hi_request (Some two_lines) None)))
      (generateId (\<lambda>i. i))) =
     \<lparr>status = 500, headers = [], payload = Text ''Error retrieving snapshot''\<rparr>"
proof -
  have n: "two_lines \<noteq> []" by (simp add: two_lines_def)
  have "metadata_limit (generateId (\<lambda>i. i))
     \<lparr>body = js ''<p>hi</p>'', contentType = ''text/html; charset=utf-8'',
      customMetadata = Some \<lparr>meta_title = js ''Untitled'', meta_sourceUrl = two_lines,
        createdAt = 1001, expiresAt = None\<rparr>\<rparr> = None"
    by (rule metadata_limit_accepts) (auto simp: js_def two_lines_def)
  then have u: "handleUpload metadata_limit (\<lambda>i. i) 1000 1001 Map.empty
      (hi_request (Some two_lines) None) =
     (json_response 200
        (JsonUploaded (generateId (\<lambda>i. i))
           (js ''https://snapshots.example'' @ js ''/'' @ generateId (\<lambda>i. i) @ []) None),
      [generateId (\<lambda>i. i) \<mapsto>
        \<lparr>body = js ''<p>hi</p>'', contentType = ''text/html; charset=utf-8'',
         customMetadata = Some \<lparr>meta_title = js ''Untitled'', meta_sourceUrl = two_lines,
           createdAt = 1001, expiresAt = None\<rparr>\<rparr>])"
    unfolding hi_upload using n
    by (simp add: store_snapshot_def Let_def or_default_def hi_request_def
        parseExpiration_def falsy_def)
  have s: "headers_set hs ''X-Source-Url'' two_lines = Inl invalid_header_value" for hs
    by (simp add: headers_set_def two_lines_def normalize_header_value_def js_def
        is_http_whitespace_def)
  show ?thesis
    unfolding u using n
    by (simp add: json_response_def handleServe_def serve_headers_def s Let_def)
qed

subsection \<open>Expiration\<close>

text \<open>
  The grammar of the specification, \<open><integer><unit>\<close> with a unit among \<open>m\<close>, \<open>h\<close> and
  \<open>d\<close>, and the duration that such a string denotes: the decimal value of the integer
  times 60000 ms for a minute, 3600000 ms for an hour, 86400000 ms for a day.
\<close>

definition expiration_grammar :: "jsstring \<Rightarrow> bool" where
  "expiration_grammar e \<longleftrightarrow>
     e \<noteq> [] \<and> butlast e \<noteq> [] \<and> list_all (\<lambda>c. c \<in> set (js ''0123456789'')) (butlast e) \<and>
     last e \<in> set (js ''mhd'')"

fun units_first :: "jsstring \<Rightarrow> nat" where
  "units_first [] = 0"
| "units_first (c # cs) = (c - 48) + 10 * units_first cs"

definition decimal :: "jsstring \<Rightarrow> nat" where
  "decimal ds = units_first (rev ds)"

definition unit_ms :: "nat \<Rightarrow> int" where
  "unit_ms u = (if u = 109 then 60000 else if u = 104 then 3600000 else 86400000)"

definition expiration_ms :: "jsstring \<Rightarrow> int" where
  "expiration_ms e = int (decimal (butlast e)) * unit_ms (last e)"

lemma digit_chars: "c \<in> set (js ''0123456789'') \<longleftrightarrow> is_digit c"
  by (simp add: js_def is_digit_def) arith

lemma unit_chars:
  "u \<in> set (js ''mhd'') \<longleftrightarrow> u = of_char CHR ''m'' \<or> u = of_char CHR ''h'' \<or> u = of_char CHR ''d''"
  by (auto simp: js_def)

lemma digit_not_space: "is_digit c \<Longrightarrow> \<not> is_space c"
  by (auto simp: is_digit_def is_space_def)

lemma digit_value_digit: "is_digit c \<Longrightarrow> digit_value c < 10"
  by (auto simp: is_digit_def digit_value_def)

lemma digit_value_minus: "is_digit c \<Longrightarrow> digit_value c = c - 48"
  by (auto simp: is_digit_def digit_value_def)

lemma digits_value_decimal:
  "list_all is_digit ds \<Longrightarrow> digits_value 10 ds = decimal ds"
proof (induction ds rule: rev_induct)
  case Nil
  then show ?case by (simp add: digits_value_def decimal_def)
next
  case (snoc c ds)
  then have "digits_value 10 ds = decimal ds" "is_digit c" by simp_all
  moreover have "decimal (ds @ [c]) = 10 * decimal ds + (c - 48)"
    by (simp add: decimal_def)
  ultimately show ?case
    by (simp add: digits_value_def digit_value_minus)
qed

lemma parseInt_digits:
  assumes "ds \<noteq> []" "list_all is_digit ds"
  shows "parseInt ds (Some 10) = Some (int (decimal ds))"
proof -
  from assms obtain c r where ds: "ds = c # r" by (cases ds) auto
  with assms have c: "is_digit c" by simp
  have 1: "dropWhile is_space ds = ds"
    using c ds by (simp add: digit_not_space)
  have 2: "takeWhile (\<lambda>c. digit_value c < 10) ds = ds"
    using assms(2) by (auto simp: list_all_iff digit_value_digit intro!: takeWhile_eq_all_conv[THEN iffD2])
  have 3: "c \<noteq> 45 \<and> c \<noteq> 43" using c by (auto simp: is_digit_def)
  show ?thesis
    unfolding parseInt_def 1 using 2 3 ds digits_value_decimal [OF assms(2)] by (simp add: Let_def)
qed

lemma unit_not_digit:
  "u = of_char CHR ''m'' \<or> u = of_char CHR ''h'' \<or> u = of_char CHR ''d'' \<Longrightarrow> \<not> is_digit u"
  by (auto simp: is_digit_def)

lemma multipliers_unit:
  "u = of_char CHR ''m'' \<or> u = of_char CHR ''h'' \<or> u = of_char CHR ''d'' \<Longrightarrow>
   multipliers u = unit_ms u"
  by (auto simp: multipliers_def unit_ms_def)

lemma match_expiration_grammar:
  "match_expiration e = (if expiration_grammar e then Some (butlast e, last e) else None)"
proof (cases "expiration_grammar e")
  case True
  then have e: "e = butlast e @ [last e]" and d: "\<forall>c\<in>set (butlast e). is_digit c"
    and n: "butlast e \<noteq> []"
    and u: "last e = of_char CHR ''m'' \<or> last e = of_char CHR ''h'' \<or> last e = of_char CHR ''d''"
    by (auto simp: expiration_grammar_def list_all_iff digit_chars unit_chars)
  have nd: "\<not> is_digit (last e)" using u by (rule unit_not_digit)
  have t: "takeWhile is_digit (butlast e @ [last e]) = butlast e"
    using d nd by (simp add: takeWhile_append2)
  have dr: "dropWhile is_digit (butlast e @ [last e]) = [last e]"
    using d nd by (simp add: dropWhile_append2)
  have "match_expiration (butlast e @ [last e]) = Some (butlast e, last e)"
    unfolding match_expiration_def t dr using n u by auto
  with e True show ?thesis by simp
next
  case False
  have "match_expiration e = None"
  proof (rule ccontr)
    assume "match_expiration e \<noteq> None"
    then obtain u where dr: "dropWhile is_digit e = [u]"
      and n: "takeWhile is_digit e \<noteq> []"
      and u: "u = of_char CHR ''d'' \<or> u = of_char CHR ''h'' \<or> u = of_char CHR ''m''"
      by (auto simp: match_expiration_def split: list.splits if_splits)
    have e: "e = takeWhile is_digit e @ [u]"
      using takeWhile_dropWhile_id [of is_digit e] dr by simp
    then have b: "butlast e = takeWhile is_digit e" and l: "last e = u"
      by (metis butlast_snoc, metis last_snoc)
    have "list_all is_digit (takeWhile is_digit e)"
      by (auto simp: list_all_iff dest: set_takeWhileD)
    with b l n u e have "expiration_grammar e"
      by (auto simp: expiration_grammar_def digit_chars unit_chars)
    with False show False by simp
  qed
  with False show ?thesis by simp
qed

lemma never_not_grammar: "\<not> expiration_grammar (js ''never'')"
  by (simp add: expiration_grammar_def js_def)

lemma parseExpiration_grammar:
  assumes "expiration_grammar e"
  shows "parseExpiration now (Some (JString e)) =
     (case toISOString (now + expiration_ms e) of Inl err \<Rightarrow> Inl err | Inr t \<Rightarrow> Inr (Some t))"
proof -
  have ne: "e \<noteq> []" "e \<noteq> js ''never''"
    using assms never_not_grammar by (auto simp: expiration_grammar_def)
  have p: "parseInt (butlast e) (Some 10) = Some (int (decimal (butlast e)))"
    using assms by (intro parseInt_digits) (auto simp: expiration_grammar_def digit_chars)
  have m: "multipliers (last e) = unit_ms (last e)"
    using assms by (intro multipliers_unit) (auto simp: expiration_grammar_def unit_chars)
  show ?thesis
    using ne assms
    by (simp add: parseExpiration_def falsy_def match_expiration_grammar p m expiration_ms_def)
qed

lemma parseExpiration_other:
  "\<not> expiration_grammar e \<Longrightarrow> parseExpiration now (Some (JString e)) = Inr None"
  by (simp add: parseExpiration_def match_expiration_grammar)

lemma parseExpiration_not_string:
  assumes "\<not> falsy arg" "\<forall>e. arg \<noteq> Some (JString e)"
  shows "parseExpiration now arg = Inl not_a_function"
  using assms by (cases arg; cases "the arg") (auto simp: parseExpiration_def)

text \<open>
  Claim C8, as amended. \<open>parseExpiration\<close> returns \<open>null\<close> exactly when \<open>expiresIn\<close> is
  absent or another value that JavaScript takes for false (\<open>null\<close>, \<open>false\<close>, \<open>0\<close>, the
  empty string), is \<open>"never"\<close>, or is a string that does not match the grammar. When it
  is a string that matches the grammar and the current time plus the duration is a time
  a \<open>Date\<close> can hold (magnitude at most \<open>8.64e15\<close> ms), it returns the timestamp of the
  current time plus the value times the unit's duration. An upload that omits
  \<open>expiresIn\<close> and is answered 200 carries \<open>expiresAt: null\<close> in the response, in both
  workers.
\<close>

theorem parseExpiration_cases:
  "(parseExpiration now arg = Inr None \<longleftrightarrow>
      arg = None \<or> arg = Some JNull \<or> arg = Some (JBool False) \<or> arg = Some (JNumber 0) \<or>
      arg = Some (JString (js ''never'')) \<or>
      (\<exists>e. arg = Some (JString e) \<and> \<not> expiration_grammar e)) \<and>
   (\<forall>e. arg = Some (JString e) \<and> expiration_grammar e \<and>
        \<bar>now + expiration_ms e\<bar> \<le> 8640000000000000 \<longrightarrow>
      parseExpiration now arg = Inr (Some (now + expiration_ms e))) \<and>
   (\<forall>b. json request = Inr b \<and> expiresIn b = None \<and>
        status (fst (handleUpload put_error rnd now created SNAPSHOTS request)) = 200 \<longrightarrow>
      payload (fst (handleUpload put_error rnd now created SNAPSHOTS request)) =
        JsonUploaded (generateId rnd) (origin request @ js ''/'' @ generateId rnd @ search request) None) \<and>
   (\<forall>b. json request = Inr b \<and> expiresIn b = None \<and>
        status (fst (handleUpload_gz gunzip put_error rnd now created SNAPSHOTS request)) = 200 \<longrightarrow>
      payload (fst (handleUpload_gz gunzip put_error rnd now created SNAPSHOTS request)) =
        JsonUploaded (generateId rnd) (origin request @ js ''/'' @ generateId rnd @ search request) None)"
proof (intro conjI allI impI)
  show "parseExpiration now arg = Inr None \<longleftrightarrow>
      arg = None \<or> arg = Some JNull \<or> arg = Some (JBool False) \<or> arg = Some (JNumber 0) \<or>
      arg = Some (JString (js ''never'')) \<or>
      (\<exists>e. arg = Some (JString e) \<and> \<not> expiration_grammar e)"
  proof (cases "\<exists>e. arg = Some (JString e)")
    case True
    then obtain e where e: "arg = Some (JString e)" by blast
    show ?thesis
    proof (cases "expiration_grammar e")
      case True
      then show ?thesis
        using e never_not_grammar
        by (auto simp: parseExpiration_grammar split: sum.splits)
    next
      case False
      then show ?thesis using e by (simp add: parseExpiration_other)
    qed
  next
    case False
    show ?thesis
    proof (cases "falsy arg")
      case True
      with False show ?thesis
        by (auto simp: parseExpiration_def falsy_def)
    next
      case f: False
      with False have "parseExpiration now arg = Inl not_a_function"
        by (intro parseExpiration_not_string) auto
      with f False show ?thesis by (auto simp: falsy_def)
    qed
  qed
next
  fix e
  assume "arg = Some (JString e) \<and> expiration_grammar e \<and>
      \<bar>now + expiration_ms e\<bar> \<le> 8640000000000000"
  then show "parseExpiration now arg = Inr (Some (now + expiration_ms e))"
    by (simp add: parseExpiration_grammar toISOString_def)
next
  fix b
  assume "json request = Inr b \<and> expiresIn b = None \<and>
        status (fst (handleUpload put_error rnd now created SNAPSHOTS request)) = 200"
  then show "payload (fst (handleUpload put_error rnd now created SNAPSHOTS request)) =
        JsonUploaded (generateId rnd) (origin request @ js ''/'' @ generateId rnd @ search request) None"
    by (auto simp: handleUpload_def store_snapshot_def json_response_def parseExpiration_def
        falsy_def Let_def split: if_splits option.splits)
next
  fix b
  assume "json request = Inr b \<and> expiresIn b = None \<and>
        status (fst (handleUpload_gz gunzip put_error rnd now created SNAPSHOTS request)) = 200"
  then show "payload (fst (handleUpload_gz gunzip put_error rnd now created SNAPSHOTS request)) =
        JsonUploaded (generateId rnd) (origin request @ js ''/'' @ generateId rnd @ search request) None"
    by (auto simp: handleUpload_gz_def store_snapshot_def json_response_def parseExpiration_def
        falsy_def Let_def split: if_splits option.splits sum.splits)
qed

text \<open>
  The claim as stated fails in two ways. \<open>"100000000d"\<close> matches the grammar, but one
  hundred million days after November 2025 is beyond the range of \<open>Date\<close>, and
  \<open>toISOString\<close> throws instead of returning a timestamp. And a value that is not a
  string is not silently treated as never: the number 60, \<open>true\<close> and the array
  \<open>["1h"]\<close> have no \<open>match\<close> method, \<open>parseExpiration\<close> throws a \<open>TypeError\<close>, and the
  upload is answered 500 with nothing stored.
\<close>

theorem parseExpiration_throws:
  "parseExpiration 1762128000000 (Some (JString (js ''100000000d''))) = Inl RangeError \<and>
   parseExpiration 1762128000000 (Some (JNumber 60)) = Inl not_a_function \<and>
   parseExpiration 1762128000000 (Some (JBool True)) = Inl not_a_function \<and>
   parseExpiration 1762128000000 (Some (JArray [JString (js ''1h'')])) = Inl not_a_function \<and>
   handleUpload metadata_limit (\<lambda>i. i) 1762128000000 1762128000001 Map.empty
       (hi_request None (Some (JNumber 60))) =
     (json_response 500 (JsonError (js ''Upload failed: expiresIn.match is not a function'')),
      Map.empty)"
proof -
  have g: "expiration_grammar (js ''100000000d'')"
    by (simp add: expiration_grammar_def js_def)
  have "expiration_ms (js ''100000000d'') = 8640000000000000"
    by (simp add: expiration_ms_def js_def unit_ms_def decimal_def)
  then have 1: "parseExpiration 1762128000000 (Some (JString (js ''100000000d''))) = Inl RangeError"
    by (simp add: parseExpiration_grammar [OF g] toISOString_def)
  have 2: "parseExpiration 1762128000000 (Some (JNumber 60)) = Inl not_a_function"
    "parseExpiration 1762128000000 (Some (JBool True)) = Inl not_a_function"
    "parseExpiration 1762128000000 (Some (JArray [JString (js ''1h'')])) = Inl not_a_function"
    by (simp_all add: parseExpiration_def falsy_def)
  have 3: "handleUpload metadata_limit (\<lambda>i. i) 1762128000000 1762128000001 Map.empty
       (hi_request None (Some (JNumber 60))) =
     (json_response 500 (JsonError (js ''Upload failed: expiresIn.match is not a function'')),
      Map.empty)"
    unfolding hi_upload
    by (simp add: store_snapshot_def 2 not_a_function_def js_def)
  from 1 2 3 show ?thesis by simp
qed

text \<open>
  Five minutes, twelve hours and two days from time 1000; the values that give \<open>null\<close>;
  and an upload without \<open>expiresIn\<close> to each worker.
\<close>

theorem parseExpiration_cases_witness:
  "parseExpiration 1000 (Some (JString (js ''5m''))) = Inr (Some 301000) \<and>
   parseExpiration 1000 (Some (JString (js ''12h''))) = Inr (Some 43201000) \<and>
   parseExpiration 1000 (Some (JString (js ''2d''))) = Inr (Some 172801000) \<and>
   parseExpiration 1000 None = Inr None \<and>
   parseExpiration 1000 (Some JNull) = Inr None \<and>
   parseExpiration 1000 (Some (JString (js ''never''))) = Inr None \<and>
   parseExpiration 1000 (Some (JString (js ''soon''))) = Inr None \<and>
   parseExpiration 1000 (Some (JString (js ''1.5h''))) = Inr None \<and>
   payload (fst (handleUpload metadata_limit (\<lambda>i. i) 1000 1001 Map.empty (hi_request None None))) =
     JsonUploaded (generateId (\<lambda>i. i))
       (js ''https://snapshots.example'' @ js ''/'' @ generateId (\<lambda>i. i) @ []) None \<and>
   payload (fst (handleUpload_gz no_gunzip metadata_limit (\<lambda>i. i) 1000 1001 Map.empty
       (hi_request None None))) =
     JsonUploaded (generateId (\<lambda>i. i))
       (js ''https://snapshots.example'' @ js ''/'' @ generateId (\<lambda>i. i) @ []) None"
proof -
  have g: "expiration_grammar (js ''5m'')" "expiration_grammar (js ''12h'')"
    "expiration_grammar (js ''2d'')" "\<not> expiration_grammar (js ''soon'')"
    "\<not> expiration_grammar (js ''1.5h'')"
    by (simp_all add: expiration_grammar_def js_def)
  have v: "expiration_ms (js ''5m'') = 300000" "expiration_ms (js ''12h'') = 43200000"
    "expiration_ms (js ''2d'') = 172800000"
    by (simp_all add: expiration_ms_def js_def unit_ms_def decimal_def)
  have p: "parseExpiration 1000 None = Inr None"
    by (simp add: parseExpiration_def falsy_def)
  have s: "status (fst (handleUpload metadata_limit (\<lambda>i. i) 1000 1001 Map.empty (hi_request None None))) = 200"
    "status (fst (handleUpload_gz no_gunzip metadata_limit (\<lambda>i. i) 1000 1001 Map.empty (hi_request None None))) = 200"
    by (simp_all add: hi_upload hi_upload_gz hi_stored [OF p] json_response_def)
  have j: "json (hi_request None None) = Inr \<lparr>html = Some (js ''<p>hi</p>''), compressed = False,
      title = None, sourceUrl = None, expiresIn = None\<rparr>"
    "origin (hi_request None None) = js ''https://snapshots.example''" "search (hi_request None None) = []"
    by (simp_all add: hi_request_def)
  show ?thesis
    using parseExpiration_cases [of 1000 "Some (JString (js ''5m''))" "hi_request None None" metadata_limit "\<lambda>i. i" 1001 Map.empty no_gunzip]
      parseExpiration_cases [of 1000 "Some (JString (js ''12h''))" "hi_request None None" metadata_limit "\<lambda>i. i" 1001 Map.empty no_gunzip]
      parseExpiration_cases [of 1000 "Some (JString (js ''2d''))" "hi_request None None" metadata_limit "\<lambda>i. i" 1001 Map.empty no_gunzip]
      parseExpiration_cases [of 1000 None "hi_request None None" metadata_limit "\<lambda>i. i" 1001 Map.empty no_gunzip]
      parseExpiration_cases [of 1000 "Some JNull" "hi_request None None" metadata_limit "\<lambda>i. i" 1001 Map.empty no_gunzip]
      parseExpiration_cases [of 1000 "Some (JString (js ''never''))" "hi_request None None" metadata_limit "\<lambda>i. i" 1001 Map.empty no_gunzip]
      parseExpiration_cases [of 1000 "Some (JString (js ''soon''))" "hi_request None None" metadata_limit "\<lambda>i. i" 1001 Map.empty no_gunzip]
      parseExpiration_cases [of 1000 "Some (JString (js ''1.5h''))" "hi_request None None" metadata_limit "\<lambda>i. i" 1001 Map.empty no_gunzip]
      g v s j
    by simp
qed

subsection \<open>The size ceiling\<close>

lemma parseInt_None_Nil: "parseInt [] r = None"
  by (simp add: parseInt_def Let_def)

text \<open>
  Claim C9, as amended. An upload whose declared size (the \<open>Content-Length\<close> header, read
  by \<open>parseInt\<close>) exceeds the worker's ceiling is answered 413 with an error message and
  the bucket is unchanged, in both workers. In the plain worker, an upload whose body
  parses and whose \<open>html\<close> encodes to more bytes than the ceiling is answered 413 with the
  bucket unchanged as well.
\<close>

theorem upload_size_ceiling:
  "(\<forall>cl n. contentLength request = Some cl \<and> parseInt cl None = Some n \<and> MAX_SIZE < n \<longrightarrow>
      handleUpload put_error rnd now created SNAPSHOTS request =
        (json_response 413 (JsonError (js ''Content too large'')), SNAPSHOTS)) \<and>
   (\<forall>cl n. contentLength request = Some cl \<and> parseInt cl None = Some n \<and> MAX_SIZE_gz < n \<longrightarrow>
      handleUpload_gz gunzip put_error rnd now created SNAPSHOTS request =
        (json_response 413 (JsonError (js ''Content too large'')), SNAPSHOTS)) \<and>
   (\<forall>b h. json request = Inr b \<and> html b = Some h \<and>
        MAX_SIZE < int (length (TextEncoder_encode h)) \<longrightarrow>
      handleUpload put_error rnd now created SNAPSHOTS request =
        (json_response 413 (JsonError (js ''Content too large'')), SNAPSHOTS))"
proof (intro conjI allI impI)
  fix cl n
  assume "contentLength request = Some cl \<and> parseInt cl None = Some n \<and> MAX_SIZE < n"
  moreover from this have "cl \<noteq> []" using parseInt_None_Nil by auto
  ultimately show "handleUpload put_error rnd now created SNAPSHOTS request =
        (json_response 413 (JsonError (js ''Content too large'')), SNAPSHOTS)"
    by (simp add: handleUpload_def too_large_def)
next
  fix cl n
  assume "contentLength request = Some cl \<and> parseInt cl None = Some n \<and> MAX_SIZE_gz < n"
  moreover from this have "cl \<noteq> []" using parseInt_None_Nil by auto
  ultimately show "handleUpload_gz gunzip put_error rnd now created SNAPSHOTS request =
        (json_response 413 (JsonError (js ''Content too large'')), SNAPSHOTS)"
    by (simp add: handleUpload_gz_def too_large_def)
next
  fix b h
  assume a: "json request = Inr b \<and> html b = Some h \<and>
        MAX_SIZE < int (length (TextEncoder_encode h))"
  then have "h \<noteq> []"
    by (auto simp: TextEncoder_encode_def MAX_SIZE_def)
  with a show "handleUpload put_error rnd now created SNAPSHOTS request =
        (json_response 413 (JsonError (js ''Content too large'')), SNAPSHOTS)"
    by (simp add: handleUpload_def)
qed

text \<open>
  Requests for the three cases: a declared size one byte over the ceiling, and a body
  without \<open>Content-Length\<close> whose \<open>html\<close> is one byte over the ceiling.
\<close>

definition declared_request :: "jsstring \<Rightarrow> request" where
  "declared_request cl =
     \<lparr>contentLength = Some cl, json = Inl (Thrown (js ''Unexpected end of JSON input'')),
      origin = js ''https://snapshots.example'', search = []\<rparr>"

definition long_html :: "int \<Rightarrow> jsstring" where
  "long_html limit = replicate (Suc (nat limit)) (of_char CHR ''x'')"

definition long_html_request :: "int \<Rightarrow> request" where
  "long_html_request limit =
     \<lparr>contentLength = None,
      json = Inr \<lparr>html = Some (long_html limit), compressed = False, title = None,
        sourceUrl = None, expiresIn = None\<rparr>,
      origin = js ''https://snapshots.example'', search = []\<rparr>"

lemma parseInt_decimal:
  "parseInt (js ''10485761'') None = Some 10485761"
  "parseInt (js ''52428801'') None = Some 52428801"
  by (simp_all add: parseInt_def js_def is_space_def digit_value_def digits_value_def Let_def)

lemma long_html_size: "0 \<le> limit \<Longrightarrow> int (length (TextEncoder_encode (long_html limit))) = limit + 1"
  by (simp add: length_encode_ascii long_html_def)

text \<open>The three requests are answered 413 and leave an empty bucket empty.\<close>

theorem upload_size_ceiling_witness:
  "handleUpload metadata_limit (\<lambda>i. i) 1000 1001 Map.empty (declared_request (js ''10485761'')) =
     (json_response 413 (JsonError (js ''Content too large'')), Map.empty) \<and>
   handleUpload_gz no_gunzip metadata_limit (\<lambda>i. i) 1000 1001 Map.empty
       (declared_request (js ''52428801'')) =
     (json_response 413 (JsonError (js ''Content too large'')), Map.empty) \<and>
   handleUpload metadata_limit (\<lambda>i. i) 1000 1001 Map.empty (long_html_request MAX_SIZE) =
     (json_response 413 (JsonError (js ''Content too large'')), Map.empty)"
  using upload_size_ceiling [of "declared_request (js ''10485761'')" metadata_limit "\<lambda>i. i" 1000 1001 Map.empty no_gunzip]
    upload_size_ceiling [of "declared_request (js ''52428801'')" metadata_limit "\<lambda>i. i" 1000 1001 Map.empty no_gunzip]
    upload_size_ceiling [of "long_html_request MAX_SIZE" metadata_limit "\<lambda>i. i" 1000 1001 Map.empty no_gunzip]
    parseInt_decimal long_html_size [of MAX_SIZE]
  by (simp add: declared_request_def long_html_request_def MAX_SIZE_def MAX_SIZE_gz_def)

text \<open>
  The claim as stated fails in the worker for compressed uploads, which compares only
  the declared size with the ceiling: a body sent without \<open>Content-Length\<close> whose \<open>html\<close>
  encodes to one byte more than that worker's ceiling of 50 MB is stored, and the upload
  is answered 200. (The bucket of the example accepts it: its bound is on the metadata,
  not on the body.)
\<close>

theorem upload_over_ceiling_stored:
  "MAX_SIZE_gz < int (length (TextEncoder_encode (long_html MAX_SIZE_gz))) \<and>
   status (fst (handleUpload_gz no_gunzip metadata_limit (\<lambda>i. i) 1000 1001 Map.empty
      (long_html_request MAX_SIZE_gz))) = 200 \<and>
   snd (handleUpload_gz no_gunzip metadata_limit (\<lambda>i. i) 1000 1001 Map.empty
      (long_html_request MAX_SIZE_gz)) (generateId (\<lambda>i. i)) =
     Some \<lparr>body = long_html MAX_SIZE_gz, contentType = ''text/html; charset=utf-8'',
       customMetadata = Some \<lparr>meta_title = js ''Untitled'', meta_sourceUrl = [],
         createdAt = 1001, expiresAt = None\<rparr>\<rparr>"
proof -
  have 1: "MAX_SIZE_gz < int (length (TextEncoder_encode (long_html MAX_SIZE_gz)))"
    by (simp add: long_html_size MAX_SIZE_gz_def)
  have n: "long_html MAX_SIZE_gz \<noteq> []" by (simp add: long_html_def)
  have m: "metadata_limit (generateId (\<lambda>i. i))
     \<lparr>body = long_html MAX_SIZE_gz, contentType = ''text/html; charset=utf-8'',
      customMetadata = Some \<lparr>meta_title = js ''Untitled'', meta_sourceUrl = [],
        createdAt = 1001, expiresAt = None\<rparr>\<rparr> = None"
    by (rule metadata_limit_accepts) (auto simp: js_def)
  have "handleUpload_gz no_gunzip metadata_limit (\<lambda>i. i) 1000 1001 Map.empty
      (long_html_request MAX_SIZE_gz) =
     store_snapshot metadata_limit (\<lambda>i. i) 1000 1001 Map.empty (long_html_request MAX_SIZE_gz)
       \<lparr>html = Some (long_html MAX_SIZE_gz), compressed = False, title = None,
        sourceUrl = None, expiresIn = None\<rparr> (long_html MAX_SIZE_gz)"
    unfolding handleUpload_gz_def long_html_request_def using n
    by (simp add: too_large_def)
  with 1 m show ?thesis
    by (simp add: store_snapshot_def parseExpiration_def falsy_def json_response_def Let_def
        or_default_def)
qed

subsection \<open>Stored metadata\<close>

lemma store_snapshot_entry:
  assumes "snd (store_snapshot put_error rnd now created SNAPSHOTS request b content) key = Some object"
    and "SNAPSHOTS key \<noteq> Some object"
  shows "\<exists>expires. parseExpiration now (expiresIn b) = Inr expires \<and>
         customMetadata object = Some
           \<lparr>meta_title = (case title b of None \<Rightarrow> js ''Untitled''
                          | Some t \<Rightarrow> if t = [] then js ''Untitled'' else t),
            meta_sourceUrl = (case sourceUrl b of None \<Rightarrow> [] | Some u \<Rightarrow> u),
            createdAt = created, expiresAt = expires\<rparr>"
proof (cases "parseExpiration now (expiresIn b)")
  case (Inl err)
  with assms show ?thesis by (simp add: store_snapshot_def)
next
  case (Inr expires)
  have d: "or_default x [] = (case x of None \<Rightarrow> [] | Some u \<Rightarrow> u)" for x
    by (simp add: or_default_def split: option.splits)
  have t: "or_default x (js ''Untitled'') =
      (case x of None \<Rightarrow> js ''Untitled'' | Some t \<Rightarrow> if t = [] then js ''Untitled'' else t)" for x
    by (simp add: or_default_def)
  show ?thesis
  proof (cases "key = generateId rnd")
    case True
    with assms Inr show ?thesis
      by (auto simp: store_snapshot_def Let_def d t split: option.splits)
  next
    case False
    with assms Inr show ?thesis
      by (simp add: store_snapshot_def Let_def split: option.splits)
  qed
qed

lemma handleUpload_outcome:
  "snd (handleUpload put_error rnd now created SNAPSHOTS request) = SNAPSHOTS \<or>
   (\<exists>b h. json request = Inr b \<and>
      handleUpload put_error rnd now created SNAPSHOTS request =
        store_snapshot put_error rnd now created SNAPSHOTS request b h)"
  by (simp add: handleUpload_def split: sum.splits option.splits) blast

lemma handleUpload_gz_outcome:
  "snd (handleUpload_gz gunzip put_error rnd now created SNAPSHOTS request) = SNAPSHOTS \<or>
   (\<exists>b h. json request = Inr b \<and>
      handleUpload_gz gunzip put_error rnd now created SNAPSHOTS request =
        store_snapshot put_error rnd now created SNAPSHOTS request b h)"
  by (simp add: handleUpload_gz_def split: sum.splits option.splits) blast

text \<open>
  Claim C10. Every entry that an upload puts into the bucket carries all four metadata
  fields: the request's \<open>title\<close> or \<open>Untitled\<close> when the title is missing or empty, the
  request's \<open>sourceUrl\<close> or the empty string, the upload time as \<open>createdAt\<close>, and the
  result of \<open>parseExpiration(expiresIn)\<close> as \<open>expiresAt\<close>. This holds in both workers.
\<close>

theorem upload_metadata_populated:
  "(\<forall>key object.
      snd (handleUpload put_error rnd now created SNAPSHOTS request) key = Some object \<and>
      SNAPSHOTS key \<noteq> Some object \<longrightarrow>
      (\<exists>b expires. json request = Inr b \<and> parseExpiration now (expiresIn b) = Inr expires \<and>
         customMetadata object = Some
           \<lparr>meta_title = (case title b of None \<Rightarrow> js ''Untitled''
                          | Some t \<Rightarrow> if t = [] then js ''Untitled'' else t),
            meta_sourceUrl = (case sourceUrl b of None \<Rightarrow> [] | Some u \<Rightarrow> u),
            createdAt = created, expiresAt = expires\<rparr>)) \<and>
   (\<forall>key object.
      snd (handleUpload_gz gunzip put_error rnd now created SNAPSHOTS request) key = Some object \<and>
      SNAPSHOTS key \<noteq> Some object \<longrightarrow>
      (\<exists>b expires. json request = Inr b \<and> parseExpiration now (expiresIn b) = Inr expires \<and>
         customMetadata object = Some
           \<lparr>meta_title = (case title b of None \<Rightarrow> js ''Untitled''
                          | Some t \<Rightarrow> if t = [] then js ''Untitled'' else t),
            meta_sourceUrl = (case sourceUrl b of None \<Rightarrow> [] | Some u \<Rightarrow> u),
            createdAt = created, expiresAt = expires\<rparr>))"
proof (intro conjI allI impI)
  fix key object
  assume a: "snd (handleUpload put_error rnd now created SNAPSHOTS request) key = Some object \<and>
      SNAPSHOTS key \<noteq> Some object"
  with handleUpload_outcome [of put_error rnd now created SNAPSHOTS request]
  obtain b h where b: "json request = Inr b"
    and h: "handleUpload put_error rnd now created SNAPSHOTS request =
         store_snapshot put_error rnd now created SNAPSHOTS request b h"
    by auto
  from a h have "snd (store_snapshot put_error rnd now created SNAPSHOTS request b h) key = Some object"
    "SNAPSHOTS key \<noteq> Some object" by simp_all
  from store_snapshot_entry [OF this] b
  show "\<exists>b expires. json request = Inr b \<and> parseExpiration now (expiresIn b) = Inr expires \<and>
         customMetadata object = Some
           \<lparr>meta_title = (case title b of None \<Rightarrow> js ''Untitled''
                          | Some t \<Rightarrow> if t = [] then js ''Untitled'' else t),
            meta_sourceUrl = (case sourceUrl b of None \<Rightarrow> [] | Some u \<Rightarrow> u),
            createdAt = created, expiresAt = expires\<rparr>"
    by blast
next
  fix key object
  assume a: "snd (handleUpload_gz gunzip put_error rnd now created SNAPSHOTS request) key = Some object \<and>
      SNAPSHOTS key \<noteq> Some object"
  with handleUpload_gz_outcome [of gunzip put_error rnd now created SNAPSHOTS request]
  obtain b h where b: "json request = Inr b"
    and h: "handleUpload_gz gunzip put_error rnd now created SNAPSHOTS request =
         store_snapshot put_error rnd now created SNAPSHOTS request b h"
    by auto
  from a h have "snd (store_snapshot put_error rnd now created SNAPSHOTS request b h) key = Some object"
    "SNAPSHOTS key \<noteq> Some object" by simp_all
  from store_snapshot_entry [OF this] b
  show "\<exists>b expires. json request = Inr b \<and> parseExpiration now (expiresIn b) = Inr expires \<and>
         customMetadata object = Some
           \<lparr>meta_title = (case title b of None \<Rightarrow> js ''Untitled''
                          | Some t \<Rightarrow> if t = [] then js ''Untitled'' else t),
            meta_sourceUrl = (case sourceUrl b of None \<Rightarrow> [] | Some u \<Rightarrow> u),
            createdAt = created, expiresAt = expires\<rparr>"
    by blast
qed

text \<open>The upload of \<open><p>hi</p>\<close> without title, source or expiration, to each worker.\<close>

theorem upload_metadata_populated_witness:
  "customMetadata (hi_object None) = Some
     \<lparr>meta_title = js ''Untitled'', meta_sourceUrl = [], createdAt = 0, expiresAt = None\<rparr> \<and>
   snd (handleUpload metadata_limit (\<lambda>i. i) 1000 0 Map.empty (hi_request None None)) (generateId (\<lambda>i. i)) =
     Some (hi_object None) \<and>
   snd (handleUpload_gz no_gunzip metadata_limit (\<lambda>i. i) 1000 0 Map.empty (hi_request None None))
       (generateId (\<lambda>i. i)) =
     Some (hi_object None)"
proof -
  have p: "parseExpiration 1000 None = Inr None"
    by (simp add: parseExpiration_def falsy_def)
  have s: "snd (handleUpload metadata_limit (\<lambda>i. i) 1000 0 Map.empty (hi_request None None)) (generateId (\<lambda>i. i)) =
     Some (hi_object None)"
    "snd (handleUpload_gz no_gunzip metadata_limit (\<lambda>i. i) 1000 0 Map.empty (hi_request None None))
       (generateId (\<lambda>i. i)) =
     Some (hi_object None)"
    by (simp_all add: hi_upload hi_upload_gz hi_stored [OF p] hi_object_def)
  with upload_metadata_populated [of metadata_limit "\<lambda>i. i" 1000 0 Map.empty "hi_request None None" no_gunzip]
  show ?thesis
    by (auto simp: hi_request_def p)
qed

section \<open>Properties of the transport codec\<close>

subsection \<open>The chunked conversion and base64\<close>

lemma fromCharCode_chunks_eq:
  "fromCharCode_chunks i d b = b @ map unat (drop i d)"
proof (induction i d b rule: fromCharCode_chunks.induct)
  case (1 i d b)
  show ?case
  proof (cases "i < length d")
    case True
    have "take chunkSize (drop i d) @ drop (i + chunkSize) d = drop i d"
      by (metis add.commute append_take_drop_id drop_drop)
    then have "map unat (take chunkSize (drop i d)) @ map unat (drop (i + chunkSize) d) = map unat (drop i d)"
      by (metis map_append)
    with True 1 show ?thesis
      by (subst fromCharCode_chunks.simps) simp
  next
    case False
    then show ?thesis by (subst fromCharCode_chunks.simps) simp
  qed
qed

lemma unat_byte: "n < 256 \<Longrightarrow> unat (of_nat n :: byte) = n"
  by (simp add: unat_of_nat)

lemma byte_of_unat: "map of_nat (map unat (d :: byte list)) = d"
  by (induction d) simp_all

lemma b64_index_char: "i < 64 \<Longrightarrow> b64_index (b64_char i) = Some i"
  by (auto simp: b64_index_def b64_char_def)

lemma b64_char_plain: "i < 64 \<Longrightarrow> b64_char i \<noteq> 61 \<and> \<not> is_ascii_space (b64_char i)"
  by (auto simp: b64_char_def is_ascii_space_def)


text \<open>The six-bit groups of a byte string, before padding.\<close>

fun b64_sextets :: "nat list \<Rightarrow> nat list" where
  "b64_sextets [] = []"
| "b64_sextets [a] = [a div 4, a mod 4 * 16]"
| "b64_sextets [a, b] = [a div 4, a mod 4 * 16 + b div 16, b mod 16 * 4]"
| "b64_sextets (a # b # c # r) =
     [a div 4, a mod 4 * 16 + b div 16, b mod 16 * 4 + c div 64, c mod 64] @ b64_sextets r"

lemma byte_div:
  fixes b :: nat
  assumes "b < 256"
  shows "b div 4 < 64" "b div 16 < 16" "b div 64 < 4"
  using assms by (simp_all add: less_mult_imp_div_less)

lemma sextet_hi: "(a::nat) mod 4 * 16 < 64" "(b::nat) mod 16 * 4 < 64"
proof -
  have "a mod 4 < 4" "b mod 16 < 16" by simp_all
  then show "a mod 4 * 16 < 64" "b mod 16 * 4 < 64" by linarith+
qed

lemma sextet_mid1: "(b::nat) < 256 \<Longrightarrow> a mod 4 * 16 + b div 16 < 64"
  using byte_div(2) [of b] sextet_hi(1) [of a] mod_less_divisor [of 4 a] by linarith

lemma sextet_mid2: "(c::nat) < 256 \<Longrightarrow> b mod 16 * 4 + c div 64 < 64"
  using byte_div(3) [of c] mod_less_divisor [of 16 b] by linarith

lemma join1: "(a::nat) div 4 * 4 + a mod 4 * 16 div 16 = a"
  by simp

lemma join2: "(b::nat) < 256 \<Longrightarrow> a div 4 * 4 + (a mod 4 * 16 + b div 16) div 16 = a"
  using byte_div(2) [of b] by simp

lemma join3: "(b::nat) < 256 \<Longrightarrow> (a mod 4 * 16 + b div 16) mod 16 * 16 + b mod 16 * 4 div 4 = b"
  using byte_div(2) [of b] by simp

lemma join4:
  "(b::nat) < 256 \<Longrightarrow> (c::nat) < 256 \<Longrightarrow>
   (a mod 4 * 16 + b div 16) mod 16 * 16 + (b mod 16 * 4 + c div 64) div 4 = b"
  using byte_div(2) [of b] byte_div(3) [of c] by simp

lemma join5: "(c::nat) < 256 \<Longrightarrow> (b mod 16 * 4 + c div 64) mod 4 * 64 + c mod 64 = c"
  using byte_div(3) [of c] by simp

lemma b64_sextets_bound:
  "\<forall>b\<in>set bs. b < 256 \<Longrightarrow> \<forall>s\<in>set (b64_sextets bs). s < 64"
proof (induction bs rule: b64_sextets.induct)
  case 1
  then show ?case by simp
next
  case (2 a)
  then have "a < 256" by simp
  from byte_div(1) [OF this] sextet_hi(1) [of a] show ?case by simp
next
  case (3 a b)
  then have p: "a < 256" "b < 256" by simp_all
  from byte_div(1) [OF p(1)] sextet_mid1 [OF p(2), of a] sextet_hi(2) [of b]
  show ?case by simp
next
  case (4 a b c r)
  then have p: "a < 256" "b < 256" "c < 256" and r: "\<forall>s\<in>set (b64_sextets r). s < 64"
    by simp_all
  from byte_div(1) [OF p(1)] sextet_mid1 [OF p(2), of a] sextet_mid2 [OF p(3), of b] r
  show ?case by simp
qed

lemma b64_decode_sextets:
  "\<forall>b\<in>set bs. b < 256 \<Longrightarrow> b64_decode (b64_sextets bs) = bs"
proof (induction bs rule: b64_sextets.induct)
  case 1
  then show ?case by simp
next
  case (2 a)
  from join1 [of a] show ?case by simp
next
  case (3 a b)
  then have p: "b < 256" by simp
  from join2 [OF p, of a] join3 [OF p, of a] show ?case by simp
next
  case (4 a b c r)
  then have p: "b < 256" "c < 256" and r: "b64_decode (b64_sextets r) = r"
    by simp_all
  from join2 [OF p(1), of a] join4 [OF p, of a] join5 [OF p(2), of b] r show ?case by simp
qed

lemma length_b64_sextets: "length (b64_sextets bs) mod 4 \<noteq> 1"
  by (induction bs rule: b64_sextets.induct) simp_all

lemma length_b64_encode: "length (b64_encode bs) mod 4 = 0"
  by (induction bs rule: b64_encode.induct) simp_all

lemma b64_encode_Nil: "b64_encode bs = [] \<longleftrightarrow> bs = []"
  by (induction bs rule: b64_encode.induct) simp_all

lemma b64_encode_plain:
  "\<forall>b\<in>set bs. b < 256 \<Longrightarrow> \<forall>c\<in>set (b64_encode bs). \<not> is_ascii_space c"
proof (induction bs rule: b64_encode.induct)
  case 1
  then show ?case by simp
next
  case (2 a)
  then have "a < 256" by simp
  from b64_char_plain [OF byte_div(1) [OF this]] b64_char_plain [OF sextet_hi(1) [of a]]
  show ?case by (simp add: is_ascii_space_def)
next
  case (3 a b)
  then have p: "a < 256" "b < 256" by simp_all
  from b64_char_plain [OF byte_div(1) [OF p(1)]] b64_char_plain [OF sextet_mid1 [OF p(2), of a]]
    b64_char_plain [OF sextet_hi(2) [of b]]
  show ?case by (simp add: is_ascii_space_def)
next
  case (4 a b c r)
  then have p: "a < 256" "b < 256" "c < 256"
    and r: "\<forall>c\<in>set (b64_encode r). \<not> is_ascii_space c"
    by simp_all
  have "c mod 64 < 64" by simp
  from b64_char_plain [OF byte_div(1) [OF p(1)]] b64_char_plain [OF sextet_mid1 [OF p(2), of a]]
    b64_char_plain [OF sextet_mid2 [OF p(3), of b]] b64_char_plain [OF this] r
  show ?case by simp
qed

lemma strip_padding_append:
  assumes "length q mod 4 = 0" "2 \<le> length e"
  shows "strip_padding (q @ e) = q @ strip_padding e"
proof -
  from assms(2) have e: "e \<noteq> []" "butlast e \<noteq> []"
    by (auto simp: butlast_conv_take)
  have l: "length (q @ e) mod 4 = length e mod 4"
    using assms(1) by (simp add: mod_add_left_eq [symmetric, of "length q"])
  show ?thesis
    unfolding strip_padding_def l using e
    by (simp add: butlast_append)
qed

lemma strip_padding_encode:
  "\<forall>b\<in>set bs. b < 256 \<Longrightarrow> strip_padding (b64_encode bs) = map b64_char (b64_sextets bs)"
proof (induction bs rule: b64_encode.induct)
  case 1
  then show ?case by (simp add: strip_padding_def)
next
  case (2 a)
  then show ?case by (simp add: strip_padding_def)
next
  case (3 a b)
  have "b64_char (b mod 16 * 4) \<noteq> 61"
    using b64_char_plain [OF sextet_hi(2) [of b]] by simp
  then show ?case by (simp add: strip_padding_def)
next
  case (4 a b c r)
  let ?q = "[b64_char (a div 4), b64_char (a mod 4 * 16 + b div 16),
      b64_char (b mod 16 * 4 + c div 64), b64_char (c mod 64)]"
  show ?case
  proof (cases "r = []")
    case True
    have "b64_char (c mod 64) \<noteq> 61" using b64_char_plain [of "c mod 64"] by simp
    with True show ?thesis by (simp add: strip_padding_def)
  next
    case False
    then have "b64_encode r \<noteq> []" by (simp add: b64_encode_Nil)
    with length_b64_encode [of r] have "2 \<le> length (b64_encode r)"
      by (cases "b64_encode r" rule: b64_encode.cases) auto
    then have "strip_padding (?q @ b64_encode r) = ?q @ strip_padding (b64_encode r)"
      by (intro strip_padding_append) simp_all
    with 4 show ?thesis by simp
  qed
qed

lemma those_index_chars:
  "\<forall>s\<in>set sx. s < 64 \<Longrightarrow> those (map b64_index (map b64_char sx)) = Some sx"
  by (induction sx) (simp_all add: b64_index_char)

lemma atob_b64_encode:
  assumes "\<forall>b\<in>set bs. b < 256"
  shows "atob (b64_encode bs) = Inr bs"
proof -
  have f: "filter (\<lambda>c. \<not> is_ascii_space c) (b64_encode bs) = b64_encode bs"
    using b64_encode_plain [OF assms] by (simp add: filter_id_conv)
  show ?thesis
    unfolding atob_def f strip_padding_encode [OF assms]
    using length_b64_sextets [of bs] those_index_chars [OF b64_sextets_bound [OF assms]]
      b64_decode_sextets [OF assms]
    by (simp add: Let_def)
qed

lemma atob_btoa:
  "btoa (map unat (d :: byte list)) = Inr (b64_encode (map unat d)) \<and>
   atob (b64_encode (map unat d)) = Inr (map unat d)"
proof -
  have "\<forall>b\<in>set (map unat d). b < 256"
    using unsigned_less [where 'a = nat and 'b = 8] by auto
  then show ?thesis
    by (auto simp: btoa_def atob_b64_encode)
qed

subsection \<open>UTF-8\<close>

text \<open>A Unicode scalar value: a code point that is no surrogate.\<close>

definition is_scalar :: "nat \<Rightarrow> bool" where
  "is_scalar c \<longleftrightarrow> c < 0x110000 \<and> \<not> is_surrogate c"

lemma div_lower: "0 < d \<Longrightarrow> k * d \<le> (c::nat) \<Longrightarrow> k \<le> c div d"
  by (simp add: less_eq_div_iff_mult_less_eq)

lemma div_upper: "(c::nat) < k * d \<Longrightarrow> c div d < k"
  by (rule less_mult_imp_div_less)

lemma mod_offset: "(k::nat) < d \<Longrightarrow> (q * d + k) mod d = k"
  by simp

lemma div_div_64: "(c::nat) div 64 div 64 = c div 4096" "(c::nat) div 4096 div 64 = c div 262144"
  by (simp_all add: div_mult2_eq)

lemma split_64:
  "(c::nat) div 4096 * 64 + c div 64 mod 64 = c div 64"
  "(c::nat) div 262144 * 64 + c div 4096 mod 64 = c div 4096"
  using div_mult_mod_eq [of "c div 64" 64] div_mult_mod_eq [of "c div 4096" 64]
  by (simp_all add: div_div_64)

text \<open>The steps of the decoder on a byte given by its value.\<close>

lemma decode_ascii:
  "v \<le> 0x7F \<Longrightarrow>
   utf8_decode cp seen 0 lo hi (of_nat v # bs) = v # utf8_decode 0 0 0 0x80 0xBF bs"
  by (simp add: unat_byte)

lemma decode_lead2:
  "0xC2 \<le> v \<Longrightarrow> v \<le> 0xDF \<Longrightarrow>
   utf8_decode cp seen 0 lo hi (of_nat v # bs) = utf8_decode (v mod 32) 0 1 0x80 0xBF bs"
  by (simp add: unat_byte)

lemma decode_lead3:
  "0xE0 \<le> v \<Longrightarrow> v \<le> 0xEF \<Longrightarrow>
   utf8_decode cp seen 0 lo hi (of_nat v # bs) =
     utf8_decode (v mod 16) 0 2 (if v = 0xE0 then 0xA0 else 0x80)
       (if v = 0xED then 0x9F else 0xBF) bs"
  by (simp add: unat_byte)

lemma decode_lead4:
  "0xF0 \<le> v \<Longrightarrow> v \<le> 0xF4 \<Longrightarrow>
   utf8_decode cp seen 0 lo hi (of_nat v # bs) =
     utf8_decode (v mod 8) 0 3 (if v = 0xF0 then 0x90 else 0x80)
       (if v = 0xF4 then 0x8F else 0xBF) bs"
  by (simp add: unat_byte)

lemma decode_continue:
  "needed \<noteq> 0 \<Longrightarrow> lo \<le> v \<Longrightarrow> v \<le> hi \<Longrightarrow> v < 256 \<Longrightarrow> seen + 1 \<noteq> needed \<Longrightarrow>
   utf8_decode cp seen needed lo hi (of_nat v # bs) =
     utf8_decode (cp * 64 + v mod 64) (seen + 1) needed 0x80 0xBF bs"
  by (simp add: unat_byte)

lemma decode_last:
  "needed \<noteq> 0 \<Longrightarrow> lo \<le> v \<Longrightarrow> v \<le> hi \<Longrightarrow> v < 256 \<Longrightarrow> seen + 1 = needed \<Longrightarrow>
   utf8_decode cp seen needed lo hi (of_nat v # bs) =
     (cp * 64 + v mod 64) # utf8_decode 0 0 0 0x80 0xBF bs"
  by (simp add: unat_byte)

lemma continuation_byte:
  "0x80 \<le> 0x80 + (k::nat) mod 64" "0x80 + (k::nat) mod 64 \<le> 0xBF" "0x80 + (k::nat) mod 64 < 256"
  "(0x80 + (k::nat) mod 64) mod 64 = k mod 64"
proof -
  have "k mod 64 < 64" by simp
  then show "0x80 \<le> 0x80 + k mod 64" "0x80 + k mod 64 \<le> 0xBF" "0x80 + k mod 64 < 256"
    by linarith+
  show "(0x80 + k mod 64) mod 64 = k mod 64"
    using mod_offset [of "k mod 64" 64 2] by simp
qed


declare utf8_decode.simps [simp del]

lemma decode_encode_1:
  assumes "c < 0x80"
  shows "utf8_decode 0 0 0 0x80 0xBF (utf8_encode_cp c @ bs) = c # utf8_decode 0 0 0 0x80 0xBF bs"
  using assms decode_ascii [of c 0 0 "0x80" "0xBF" bs] by (simp add: utf8_encode_cp_def)

lemma decode_encode_2:
  assumes "0x80 \<le> c" "c < 0x800"
  shows "utf8_decode 0 0 0 0x80 0xBF (utf8_encode_cp c @ bs) = c # utf8_decode 0 0 0 0x80 0xBF bs"
proof -
  have k: "2 \<le> c div 64" "c div 64 < 32"
    using div_lower [of 64 2 c] div_upper [of c 32 64] assms by simp_all
  have m: "(0xC0 + c div 64) mod 32 = c div 64"
    using mod_offset [of "c div 64" 32 6] k by simp
  have "utf8_decode 0 0 0 0x80 0xBF (utf8_encode_cp c @ bs) =
      utf8_decode 0 0 0 0x80 0xBF (of_nat (0xC0 + c div 64) # of_nat (0x80 + c mod 64) # bs)"
    using assms by (simp add: utf8_encode_cp_def)
  also have "\<dots> = utf8_decode (c div 64) 0 1 0x80 0xBF (of_nat (0x80 + c mod 64) # bs)"
    using decode_lead2 [of "0xC0 + c div 64" 0 0 "0x80" "0xBF"] k m by simp
  also have "\<dots> = (c div 64 * 64 + c mod 64) # utf8_decode 0 0 0 0x80 0xBF bs"
    using decode_last [of 1 "0x80" "0x80 + c mod 64" "0xBF" 0 "c div 64" bs]
      continuation_byte [of c] by simp
  finally show ?thesis by simp
qed

lemma decode_encode_3:
  assumes "0x800 \<le> c" "c < 0x10000" "\<not> is_surrogate c"
  shows "utf8_decode 0 0 0 0x80 0xBF (utf8_encode_cp c @ bs) = c # utf8_decode 0 0 0 0x80 0xBF bs"
proof -
  let ?k = "c div 4096"
  let ?lo = "if 0xE0 + ?k = 0xE0 then 0xA0 else (0x80::nat)"
  let ?hi = "if 0xE0 + ?k = 0xED then 0x9F else (0xBF::nat)"
  let ?v2 = "0x80 + c div 64 mod 64"
  have k: "?k < 16" using div_upper [of c 16 4096] assms by simp
  have m: "(0xE0 + ?k) mod 16 = ?k"
    using mod_offset [of ?k 16 14] k by simp
  have lo: "?lo \<le> ?v2"
  proof (cases "?k = 0")
    case True
    then have "c < 4096" by (simp add: div_eq_0_iff)
    then have "32 \<le> c div 64 mod 64"
      using div_lower [of 64 32 c] div_upper [of c 64 64] assms by simp
    with True show ?thesis by simp
  next
    case False
    then show ?thesis by simp
  qed
  have hi: "?v2 \<le> ?hi"
  proof (cases "?k = 13")
    case True
    have "c div 64 = 13 * 64 + c div 64 mod 64"
      using split_64(1) [of c] True by simp
    moreover have "c < 0xE000"
    proof (rule ccontr)
      assume "\<not> c < 0xE000"
      then have "14 \<le> ?k" using div_lower [of 4096 14 c] by simp
      with True show False by simp
    qed
    then have "c < 0xD800" using assms(3) True div_lower [of 4096 13 c]
      by (simp add: is_surrogate_def)
    then have "c div 64 < 864" using div_upper [of c 864 64] by simp
    ultimately have "c div 64 mod 64 < 32" by linarith
    with True show ?thesis by simp
  next
    case False
    then show ?thesis using continuation_byte(2) [of "c div 64"] by simp
  qed
  have "utf8_decode 0 0 0 0x80 0xBF (utf8_encode_cp c @ bs) =
      utf8_decode 0 0 0 0x80 0xBF
        (of_nat (0xE0 + ?k) # of_nat ?v2 # of_nat (0x80 + c mod 64) # bs)"
    using assms by (simp add: utf8_encode_cp_def)
  also have "\<dots> = utf8_decode ?k 0 2 ?lo ?hi (of_nat ?v2 # of_nat (0x80 + c mod 64) # bs)"
    using decode_lead3 [of "0xE0 + ?k" 0 0 "0x80" "0xBF"] k m by simp
  also have "\<dots> = utf8_decode (?k * 64 + c div 64 mod 64) 1 2 0x80 0xBF
      (of_nat (0x80 + c mod 64) # bs)"
    using decode_continue [of 2 ?lo ?v2 ?hi 0 ?k] lo hi continuation_byte [of "c div 64"]
    by simp
  also have "\<dots> = ((?k * 64 + c div 64 mod 64) * 64 + c mod 64) # utf8_decode 0 0 0 0x80 0xBF bs"
    using decode_last [of 2 "0x80" "0x80 + c mod 64" "0xBF" 1 "?k * 64 + c div 64 mod 64" bs]
      continuation_byte [of c] by simp
  finally show ?thesis by (simp add: split_64)
qed

lemma decode_encode_4:
  assumes "0x10000 \<le> c" "c < 0x110000"
  shows "utf8_decode 0 0 0 0x80 0xBF (utf8_encode_cp c @ bs) = c # utf8_decode 0 0 0 0x80 0xBF bs"
proof -
  let ?k = "c div 262144"
  let ?lo = "if 0xF0 + ?k = 0xF0 then 0x90 else (0x80::nat)"
  let ?hi = "if 0xF0 + ?k = 0xF4 then 0x8F else (0xBF::nat)"
  let ?v2 = "0x80 + c div 4096 mod 64"
  let ?v3 = "0x80 + c div 64 mod 64"
  have k: "?k < 5" using div_upper [of c 5 262144] assms by simp
  have m: "(0xF0 + ?k) mod 8 = ?k"
    using mod_offset [of ?k 8 30] k by simp
  have lo: "?lo \<le> ?v2"
  proof (cases "?k = 0")
    case True
    then have "c < 262144" by (simp add: div_eq_0_iff)
    then have "16 \<le> c div 4096 mod 64"
      using div_lower [of 4096 16 c] div_upper [of c 64 4096] assms by simp
    with True show ?thesis by simp
  next
    case False
    then show ?thesis by simp
  qed
  have hi: "?v2 \<le> ?hi"
  proof (cases "?k = 4")
    case True
    have "c div 4096 = 4 * 64 + c div 4096 mod 64"
      using split_64(2) [of c] True by simp
    moreover have "c div 4096 < 272" using div_upper [of c 272 4096] assms by simp
    ultimately have "c div 4096 mod 64 < 16" by linarith
    with True show ?thesis by simp
  next
    case False
    then show ?thesis using continuation_byte(2) [of "c div 4096"] by simp
  qed
  have "utf8_decode 0 0 0 0x80 0xBF (utf8_encode_cp c @ bs) =
      utf8_decode 0 0 0 0x80 0xBF
        (of_nat (0xF0 + ?k) # of_nat ?v2 # of_nat ?v3 # of_nat (0x80 + c mod 64) # bs)"
    using assms by (simp add: utf8_encode_cp_def)
  also have "\<dots> = utf8_decode ?k 0 3 ?lo ?hi
      (of_nat ?v2 # of_nat ?v3 # of_nat (0x80 + c mod 64) # bs)"
    using decode_lead4 [of "0xF0 + ?k" 0 0 "0x80" "0xBF"] k m by simp
  also have "\<dots> = utf8_decode (?k * 64 + c div 4096 mod 64) 1 3 0x80 0xBF
      (of_nat ?v3 # of_nat (0x80 + c mod 64) # bs)"
    using decode_continue [of 3 ?lo ?v2 ?hi 0 ?k] lo hi continuation_byte [of "c div 4096"]
    by simp
  also have "\<dots> = utf8_decode ((?k * 64 + c div 4096 mod 64) * 64 + c div 64 mod 64) 2 3 0x80 0xBF
      (of_nat (0x80 + c mod 64) # bs)"
    using decode_continue [of 3 "0x80" ?v3 "0xBF" 1 "?k * 64 + c div 4096 mod 64"]
      continuation_byte [of "c div 64"] by (simp add: numeral_2_eq_2)
  also have "\<dots> = (((?k * 64 + c div 4096 mod 64) * 64 + c div 64 mod 64) * 64 + c mod 64) #
      utf8_decode 0 0 0 0x80 0xBF bs"
    using decode_last [of 3 "0x80" "0x80 + c mod 64" "0xBF" 2
        "(?k * 64 + c div 4096 mod 64) * 64 + c div 64 mod 64" bs]
      continuation_byte [of c] by simp
  finally show ?thesis by (simp add: split_64)
qed

lemma decode_encode_cp:
  assumes "is_scalar c"
  shows "utf8_decode 0 0 0 0x80 0xBF (utf8_encode_cp c @ bs) = c # utf8_decode 0 0 0 0x80 0xBF bs"
proof -
  consider "c < 0x80" | "0x80 \<le> c" "c < 0x800" | "0x800 \<le> c" "c < 0x10000" | "0x10000 \<le> c"
    by linarith
  then show ?thesis
  proof cases
    case 1
    then show ?thesis by (rule decode_encode_1)
  next
    case 2
    then show ?thesis by (rule decode_encode_2)
  next
    case 3
    then show ?thesis using assms by (intro decode_encode_3) (simp_all add: is_scalar_def)
  next
    case 4
    then show ?thesis using assms by (intro decode_encode_4) (simp_all add: is_scalar_def)
  qed
qed

lemma decode_encode:
  "\<forall>c\<in>set cs. is_scalar c \<Longrightarrow>
   utf8_decode 0 0 0 0x80 0xBF (concat (map utf8_encode_cp cs)) = cs"
  by (induction cs) (simp_all add: decode_encode_cp utf8_decode.simps)

text \<open>
  A well-formed JavaScript string: every surrogate code unit is half of a pair (a lead
  followed by a trail). \<open>TextEncoder\<close> replaces any other surrogate by U+FFFD.
\<close>

fun well_formed_utf16 :: "jsstring \<Rightarrow> bool" where
  "well_formed_utf16 [] \<longleftrightarrow> True"
| "well_formed_utf16 [u] \<longleftrightarrow> u < 0x10000 \<and> \<not> is_surrogate u"
| "well_formed_utf16 (u # v # us) \<longleftrightarrow>
     (if is_lead u then is_trail v \<and> well_formed_utf16 us
      else u < 0x10000 \<and> \<not> is_surrogate u \<and> well_formed_utf16 (v # us))"

lemma pair_scalar:
  assumes "is_lead u" "is_trail v"
  shows "is_scalar (0x10000 + (u - 0xD800) * 0x400 + (v - 0xDC00))"
    "0x10000 \<le> 0x10000 + (u - 0xD800) * 0x400 + (v - 0xDC00)"
    "utf16_units (0x10000 + (u - 0xD800) * 0x400 + (v - 0xDC00)) = [u, v]"
proof -
  have u: "u - 0xD800 < 0x400" "0xD800 \<le> u" and v: "v - 0xDC00 < 0x400" "0xDC00 \<le> v"
    using assms by (auto simp: is_lead_def is_trail_def)
  have "(u - 0xD800) * 0x400 \<le> 0x3FF * 0x400"
    using u(1) by (intro mult_le_mono1) simp
  then show "is_scalar (0x10000 + (u - 0xD800) * 0x400 + (v - 0xDC00))"
    using v(1) by (simp add: is_scalar_def is_surrogate_def)
  show "0x10000 \<le> 0x10000 + (u - 0xD800) * 0x400 + (v - 0xDC00)" by simp
  have "((u - 0xD800) * 0x400 + (v - 0xDC00)) div 0x400 = u - 0xD800"
    "((u - 0xD800) * 0x400 + (v - 0xDC00)) mod 0x400 = v - 0xDC00"
    using v(1) by simp_all
  then show "utf16_units (0x10000 + (u - 0xD800) * 0x400 + (v - 0xDC00)) = [u, v]"
    using u(2) v(2) by (simp add: utf16_units_def add.assoc)
qed

lemma unit_scalar:
  assumes "u < 0x10000" "\<not> is_surrogate u"
  shows "is_scalar u" "utf16_units u = [u]"
  using assms by (simp_all add: is_scalar_def utf16_units_def)

lemma scalar_values_well_formed:
  "well_formed_utf16 x \<Longrightarrow>
   (\<forall>c\<in>set (scalar_values x). is_scalar c) \<and> concat (map utf16_units (scalar_values x)) = x"
proof (induction x rule: scalar_values.induct)
  case 1
  then show ?case by simp
next
  case (2 u)
  then show ?case by (simp add: unit_scalar)
next
  case (3 u v us)
  show ?case
  proof (cases "is_lead u")
    case True
    with 3 show ?thesis by (simp add: pair_scalar)
  next
    case False
    with 3 show ?thesis by (simp add: unit_scalar)
  qed
qed

lemma byte_eq: "a < 256 \<Longrightarrow> b < 256 \<Longrightarrow> (of_nat a :: byte) = of_nat b \<Longrightarrow> a = b"
  by (metis unat_byte)

lemma encode_cp_no_bom:
  assumes "is_scalar c" "c \<noteq> 0xFEFF"
  shows "\<not> prefix [0xEF, 0xBB, 0xBF] (utf8_encode_cp c @ bs)"
proof -
  have w: "(0xEF :: byte) = of_nat 0xEF" "(0xBB :: byte) = of_nat 0xBB" "(0xBF :: byte) = of_nat 0xBF"
    by simp_all
  consider "c < 0x80" | "0x80 \<le> c" "c < 0x800" | "0x800 \<le> c" "c < 0x10000" | "0x10000 \<le> c"
    by linarith
  then show ?thesis
  proof cases
    case 1
    then have "(of_nat c :: byte) \<noteq> of_nat 0xEF"
      using byte_eq [of c "0xEF"] by auto
    with 1 show ?thesis by (simp add: utf8_encode_cp_def)
  next
    case 2
    then have "c div 64 < 32" using div_upper [of c 32 64] by simp
    then have "(of_nat (0xC0 + c div 64) :: byte) \<noteq> of_nat 0xEF"
      using byte_eq [of "0xC0 + c div 64" "0xEF"] by auto
    with 2 show ?thesis by (simp add: utf8_encode_cp_def)
  next
    case 3
    have k: "c div 4096 < 16" using div_upper [of c 16 4096] 3 by simp
    have m: "c div 64 mod 64 < 64" "c mod 64 < 64" by simp_all
    have "\<not> (of_nat (0xE0 + c div 4096) = (of_nat 0xEF :: byte) \<and>
        of_nat (0x80 + c div 64 mod 64) = (of_nat 0xBB :: byte) \<and>
        of_nat (0x80 + c mod 64) = (of_nat 0xBF :: byte))"
    proof
      assume a: "of_nat (0xE0 + c div 4096) = (of_nat 0xEF :: byte) \<and>
        of_nat (0x80 + c div 64 mod 64) = (of_nat 0xBB :: byte) \<and>
        of_nat (0x80 + c mod 64) = (of_nat 0xBF :: byte)"
      have "0xE0 + c div 4096 = 0xEF"
        using a k by (intro byte_eq) simp_all
      moreover have "0x80 + c div 64 mod 64 = 0xBB"
        using a m by (intro byte_eq) simp_all
      moreover have "0x80 + c mod 64 = 0xBF"
        using a m by (intro byte_eq) simp_all
      ultimately have "c div 4096 = 15" "c div 64 mod 64 = 59" "c mod 64 = 63" by simp_all
      with split_64(1) [of c] have "c div 64 = 1019" by simp
      with \<open>c mod 64 = 63\<close> div_mult_mod_eq [of c 64] have "c = 0xFEFF" by simp
      with assms(2) show False by simp
    qed
    with 3 show ?thesis
      unfolding w by (auto simp add: utf8_encode_cp_def simp del: of_nat_add of_nat_numeral)
  next
    case 4
    have "c div 262144 < 5" using div_upper [of c 5 262144] assms by (simp add: is_scalar_def)
    then have "(of_nat (0xF0 + c div 262144) :: byte) \<noteq> of_nat 0xEF"
      using byte_eq [of "0xF0 + c div 262144" "0xEF"] by auto
    with 4 show ?thesis by (simp add: utf8_encode_cp_def)
  qed
qed

subsection \<open>Round trip\<close>

text \<open>
  What the claim takes from the platform: decompressing the concatenated output of the
  compressor gives back the bytes that were compressed.
\<close>

definition gzip_inverse :: "compressor \<Rightarrow> decompressor \<Rightarrow> bool" where
  "gzip_inverse gzip gunzip \<longleftrightarrow>
     (\<forall>data. \<exists>chunks. gunzip (concat (gzip data)) = Inr chunks \<and> concat chunks = data)"

text \<open>A pair of streams that satisfies this: the data passed through as one chunk.\<close>

definition one_chunk :: compressor where
  "one_chunk data = [data]"

definition one_chunk_back :: decompressor where
  "one_chunk_back data = Inr [data]"

lemma one_chunk_inverse: "gzip_inverse one_chunk one_chunk_back"
  by (simp add: gzip_inverse_def one_chunk_def one_chunk_back_def)

lemma decode_encode_text:
  assumes "well_formed_utf16 x"
  shows "concat (map utf16_units (utf8_decode 0 0 0 0x80 0xBF (TextEncoder_encode x))) = x"
  using scalar_values_well_formed [OF assms]
  by (simp add: TextEncoder_encode_def decode_encode)

lemma encode_no_bom:
  assumes "well_formed_utf16 x" "\<not> prefix [0xFEFF] x"
  shows "strip_bom (TextEncoder_encode x) = TextEncoder_encode x"
proof (cases x rule: scalar_values.cases)
  case 1
  then show ?thesis by (simp add: TextEncoder_encode_def strip_bom_def)
next
  case (2 u)
  with assms have "is_scalar u" "u \<noteq> 0xFEFF" by (simp_all add: unit_scalar)
  from encode_cp_no_bom [OF this, of "[]"] 2 assms show ?thesis
    by (simp add: TextEncoder_encode_def strip_bom_def)
next
  case (3 u v us)
  show ?thesis
  proof (cases "is_lead u")
    case True
    with 3 assms have t: "is_trail v" by simp
    have "0x10000 + (u - 0xD800) * 0x400 + (v - 0xDC00) \<noteq> 0xFEFF" by simp
    from encode_cp_no_bom [OF pair_scalar(1) [OF True t] this] 3 True t show ?thesis
      by (simp add: TextEncoder_encode_def strip_bom_def)
  next
    case False
    with 3 assms have "is_scalar u" "u \<noteq> 0xFEFF" by (simp_all add: unit_scalar)
    from encode_cp_no_bom [OF this] 3 False assms show ?thesis
      by (simp add: TextEncoder_encode_def strip_bom_def)
  qed
qed

lemma compressString_eq:
  "compressString gzip x =
     Inr (b64_encode (map unat (concat (gzip (TextEncoder_encode x)))))"
  using atob_btoa [of "concat (gzip (TextEncoder_encode x))"]
  by (simp add: compressString_def fromCharCode_chunks_eq Let_def)

lemma decompress_compressed:
  assumes "gzip_inverse gzip gunzip"
  shows "decompressHtml gunzip (b64_encode (map unat (concat (gzip (TextEncoder_encode x))))) =
     Inr (TextDecoder_decode (TextEncoder_encode x))"
proof -
  from assms obtain chunks
    where "gunzip (concat (gzip (TextEncoder_encode x))) = Inr chunks"
      "concat chunks = TextEncoder_encode x"
    unfolding gzip_inverse_def by blast
  then show ?thesis
    using atob_btoa [of "concat (gzip (TextEncoder_encode x))"]
    by (simp add: decompressHtml_def byte_of_unat del: map_map)
qed

text \<open>
  Claim C5, as amended. For every well-formed string \<open>x\<close> that does not begin with the
  byte order mark U+FEFF, the empty string and strings of any length included,
  \<open>compressString\<close> returns a base64 string from which \<open>decompressHtml\<close> recovers \<open>x\<close>
  exactly, for any gzip streams that invert each other.
\<close>

theorem compress_roundtrip:
  assumes "gzip_inverse gzip gunzip" "well_formed_utf16 x" "\<not> prefix [0xFEFF] x"
  shows "\<exists>c. compressString gzip x = Inr c \<and> decompressHtml gunzip c = Inr x"
proof -
  have "TextDecoder_decode (TextEncoder_encode x) = x"
    using assms(2,3) by (simp add: TextDecoder_decode_def encode_no_bom decode_encode_text)
  then show ?thesis
    using decompress_compressed [OF assms(1), of x] by (simp add: compressString_eq)
qed

lemma wf_examples:
  "well_formed_utf16 (js ''<p>hi</p>'')" "well_formed_utf16 [0x3C, 0xE9, 0xD83D, 0xDE00]"
  by (simp_all add: js_def is_lead_def is_trail_def is_surrogate_def)

text \<open>The empty string, an ASCII document, and a string with a surrogate pair.\<close>

theorem compress_roundtrip_witness:
  "(\<exists>c. compressString one_chunk [] = Inr c \<and> decompressHtml one_chunk_back c = Inr []) \<and>
   (\<exists>c. compressString one_chunk (js ''<p>hi</p>'') = Inr c \<and>
        decompressHtml one_chunk_back c = Inr (js ''<p>hi</p>'')) \<and>
   (\<exists>c. compressString one_chunk [0x3C, 0xE9, 0xD83D, 0xDE00] = Inr c \<and>
        decompressHtml one_chunk_back c = Inr [0x3C, 0xE9, 0xD83D, 0xDE00])"
  using compress_roundtrip [OF one_chunk_inverse, of "[]"]
    compress_roundtrip [OF one_chunk_inverse, of "js ''<p>hi</p>''"]
    compress_roundtrip [OF one_chunk_inverse, of "[0x3C, 0xE9, 0xD83D, 0xDE00]"]
    wf_examples
  by (simp add: js_def)

lemma encode_bom: "TextEncoder_encode [0xFEFF] = [0xEF, 0xBB, 0xBF]"
  by (simp add: TextEncoder_encode_def is_surrogate_def utf8_encode_cp_def)

text \<open>
  The claim as stated fails on a string that begins with U+FEFF: \<open>TextDecoder\<close> consumes
  the mark, whatever the gzip streams are.
\<close>

lemma byte_order_mark_dropped:
  assumes "gzip_inverse gzip gunzip" "well_formed_utf16 x"
  shows "\<exists>c. compressString gzip (0xFEFF # x) = Inr c \<and> decompressHtml gunzip c = Inr x"
proof -
  have "scalar_values (0xFEFF # x) = 0xFEFF # scalar_values x"
    by (cases x) (simp_all add: is_lead_def is_surrogate_def)
  then have "TextEncoder_encode (0xFEFF # x) = [0xEF, 0xBB, 0xBF] @ TextEncoder_encode x"
    using encode_bom by (simp add: TextEncoder_encode_def is_surrogate_def)
  then have "TextDecoder_decode (TextEncoder_encode (0xFEFF # x)) = x"
    using assms(2) by (simp add: TextDecoder_decode_def strip_bom_def decode_encode_text)
  then show ?thesis
    using decompress_compressed [OF assms(1), of "0xFEFF # x"] by (simp add: compressString_eq)
qed

text \<open>
  At the string that is the byte order mark alone: the transport form is \<open>77u/\<close>, and
  decompressing it gives the empty string.
\<close>

theorem bom_not_recovered:
  "compressString one_chunk [0xFEFF] = Inr (js ''77u/'') \<and>
   decompressHtml one_chunk_back (js ''77u/'') = Inr []"
proof -
  have c: "compressString one_chunk [0xFEFF] = Inr (js ''77u/'')"
    by (simp add: compressString_eq encode_bom one_chunk_def b64_char_def js_def)
  have "TextDecoder_decode (TextEncoder_encode [0xFEFF]) = []"
    by (simp add: encode_bom TextDecoder_decode_def strip_bom_def utf8_decode.simps)
  with decompress_compressed [OF one_chunk_inverse, of "[0xFEFF]"] c show ?thesis
    by (simp add: compressString_eq)
qed

section \<open>Capture: the page and its resources\<close>

text \<open>
  What \<open>capturePageSnapshot\<close> reads from its surroundings. \<open>resolve_url url base\<close> is
  \<open>new URL(url, base).href\<close>, \<open>None\<close> when the constructor throws. \<open>network\<close> is the
  outcome of \<open>fetch\<close> for an absolute URL: the promise rejects (a network or CORS
  error); or it never settles, the server leaving the request unanswered; or it gives a
  response with its \<open>ok\<close> flag and a body, and reading the body (\<open>response.blob()\<close>,
  \<open>response.text()\<close>) gives the content, or fails, or never settles when the rest of the
  body does not arrive. A blob has a type and bytes, and a \<open>FileReader\<close> either reads it
  or reports an error.
\<close>

record blob =
  blob_type :: jsstring
  blob_bytes :: "byte list"
  readable :: bool

datatype body_read = BodyFails thrown | Body blob | BodyStalls

datatype fetched = Rejected thrown | NoResponse | Responded bool body_read

text \<open>
  A rule of a style sheet is an \<open>@import\<close> rule, with the imported sheet when it has one,
  or any other rule; both have their \<open>cssText\<close>. The sheets of the page are numbered.
  \<open>cssRules\<close> is \<open>None\<close> when reading the rules throws (a cross-origin sheet); an empty
  \<open>href\<close> stands for a sheet without one.
\<close>

datatype rule = ImportRule "nat option" jsstring | StyleRule jsstring

record sheet =
  href :: jsstring
  cssRules :: "rule list option"

record page =
  location_href :: jsstring
  resolve_url :: "jsstring \<Rightarrow> jsstring \<Rightarrow> jsstring option"
  network :: "jsstring \<Rightarrow> fetched"
  sheet_of :: "nat \<Rightarrow> sheet"

subsection \<open>\<open>fetchAsDataUrl\<close>\<close>

text \<open>
  \<open>reader.readAsDataURL(blob)\<close>: \<open>onloadend\<close> resolves with the data URL, \<open>onerror\<close>
  (which fires first when the read fails) resolves with \<open>null\<close>.
\<close>

definition readAsDataURL :: "blob \<Rightarrow> jsstring option" where
  "readAsDataURL b =
     (if readable b
      then Some (js ''data:'' @
                 (if blob_type b = [] then js ''application/octet-stream'' else blob_type b) @
                 js '';base64,'' @ b64_encode (map unat (blob_bytes b)))
      else None)"

text \<open>
  The value of the model is \<open>None\<close> when the call never returns. When it returns, it
  gives the result (\<open>None\<close> is \<open>null\<close>) and the list of URLs requested from the network.
  An empty \<open>baseUrl\<close> stands for a missing one: \<open>baseUrl || location.href\<close>. Each \<open>catch\<close>
  of the source is a branch that returns \<open>null\<close> here. A request that stays unanswered
  is aborted by the timer after ten seconds, and the rejection is caught; the timer is
  cleared as soon as the response is there, so that nothing ends the wait for a body
  that does not arrive.
\<close>

definition fetchAsDataUrl ::
  "page \<Rightarrow> jsstring \<Rightarrow> jsstring \<Rightarrow> (jsstring option \<times> jsstring list) option" where
  "fetchAsDataUrl page url baseUrl =
     (case resolve_url page url (if baseUrl = [] then location_href page else baseUrl) of
        None \<Rightarrow> Some (None, [])
      | Some absoluteUrl \<Rightarrow>
          if prefix (js ''data:'') absoluteUrl then Some (Some absoluteUrl, [])
          else
            (case network page absoluteUrl of
               Rejected e \<Rightarrow> Some (None, [absoluteUrl])
             | NoResponse \<Rightarrow> Some (None, [absoluteUrl])
             | Responded ok blob_read \<Rightarrow>
                 if \<not> ok then Some (None, [absoluteUrl])
                 else
                   (case blob_read of
                      BodyFails e \<Rightarrow> Some (None, [absoluteUrl])
                    | BodyStalls \<Rightarrow> None
                    | Body b \<Rightarrow>
                        if length (blob_bytes b) = 0 then Some (None, [absoluteUrl])
                        else Some (readAsDataURL b, [absoluteUrl]))))"

subsection \<open>\<open>processCssUrls\<close>\<close>

text \<open>
  The regular expression \<open>/url\(\s*['"]?([^'")]+?)['"]?\s*\)/g\<close>, part by part from
  the right. Each function matches its part and what follows it at the start of the
  string, trying the alternatives in the order of a backtracking matcher (a greedy
  quantifier takes before it skips, the lazy group extends only when the rest fails),
  and returns the text after the match.
\<close>

fun rx_close :: "jsstring \<Rightarrow> jsstring option" where
  "rx_close [] = None"
| "rx_close (c # cs) =
     (case (if is_space c then rx_close cs else None) of
        Some rest \<Rightarrow> Some rest
      | None \<Rightarrow> if c = of_char CHR '')'' then Some cs else None)"

definition is_quote :: "nat \<Rightarrow> bool" where
  "is_quote c \<longleftrightarrow> c = 39 \<or> c = 34"

definition rx_tail :: "jsstring \<Rightarrow> jsstring option" where
  "rx_tail s =
     (case (case s of [] \<Rightarrow> None | c # cs \<Rightarrow> if is_quote c then rx_close cs else None) of
        Some rest \<Rightarrow> Some rest
      | None \<Rightarrow> rx_close s)"

fun rx_group :: "jsstring \<Rightarrow> jsstring \<Rightarrow> (jsstring \<times> jsstring) option" where
  "rx_group acc [] = None"
| "rx_group acc (c # cs) =
     (if is_quote c \<or> c = of_char CHR '')'' then None
      else case rx_tail cs of
             Some rest \<Rightarrow> Some (acc @ [c], rest)
           | None \<Rightarrow> rx_group (acc @ [c]) cs)"

definition rx_quote :: "jsstring \<Rightarrow> (jsstring \<times> jsstring) option" where
  "rx_quote s =
     (case (case s of [] \<Rightarrow> None | c # cs \<Rightarrow> if is_quote c then rx_group [] cs else None) of
        Some m \<Rightarrow> Some m
      | None \<Rightarrow> rx_group [] s)"

fun rx_space :: "jsstring \<Rightarrow> (jsstring \<times> jsstring) option" where
  "rx_space [] = rx_quote []"
| "rx_space (c # cs) =
     (case (if is_space c then rx_space cs else None) of
        Some m \<Rightarrow> Some m
      | None \<Rightarrow> rx_quote (c # cs))"

text \<open>A match of the expression at the start of the string: group 1 and the text after the match.\<close>

definition match_url :: "jsstring \<Rightarrow> (jsstring \<times> jsstring) option" where
  "match_url s = (if prefix (js ''url('') s then rx_space (drop 4 s) else None)"

lemma rx_close_shorter: "rx_close s = Some rest \<Longrightarrow> length rest < length s"
  by (induction s) (auto split: if_splits option.splits intro: less_SucI)

lemma rx_tail_shorter: "rx_tail s = Some rest \<Longrightarrow> length rest < length s"
  by (cases s)
    (auto simp: rx_tail_def split: if_splits option.splits
      dest!: rx_close_shorter intro: less_SucI)

lemma rx_group_shorter: "rx_group acc s = Some (cap, rest) \<Longrightarrow> length rest < length s"
proof (induction s arbitrary: acc)
  case Nil
  then show ?case by simp
next
  case (Cons c cs)
  show ?case
  proof (cases "rx_tail cs")
    case None
    with Cons.prems have "rx_group (acc @ [c]) cs = Some (cap, rest)"
      by (simp split: if_splits)
    from Cons.IH [OF this] show ?thesis by simp
  next
    case (Some r)
    with Cons.prems have "r = rest" by (simp split: if_splits)
    with rx_tail_shorter [OF Some] show ?thesis by simp
  qed
qed

lemma rx_quote_shorter: "rx_quote s = Some (cap, rest) \<Longrightarrow> length rest < length s"
proof -
  assume a: "rx_quote s = Some (cap, rest)"
  then consider c cs where "s = c # cs" "rx_group [] cs = Some (cap, rest)"
    | "rx_group [] s = Some (cap, rest)"
    by (cases s) (auto simp: rx_quote_def split: if_splits option.splits simp del: rx_group.simps)
  then show ?thesis
  proof cases
    case 1
    from rx_group_shorter [OF 1(2)] 1(1) show ?thesis by simp
  next
    case 2
    then show ?thesis by (rule rx_group_shorter)
  qed
qed

lemma rx_space_shorter: "rx_space s = Some (cap, rest) \<Longrightarrow> length rest < length s"
proof (induction s)
  case Nil
  then show ?case by (simp add: rx_quote_def)
next
  case (Cons c cs)
  show ?case
  proof (cases "is_space c \<and> rx_space cs \<noteq> None")
    case True
    with Cons.prems have "rx_space cs = Some (cap, rest)" by auto
    from Cons.IH [OF this] show ?thesis by simp
  next
    case False
    with Cons.prems have "rx_quote (c # cs) = Some (cap, rest)"
      by (auto split: if_splits option.splits)
    from rx_quote_shorter [OF this] show ?thesis .
  qed
qed

lemma match_url_shorter: "match_url s = Some (cap, rest) \<Longrightarrow> length rest < length s"
proof -
  assume "match_url s = Some (cap, rest)"
  then have "rx_space (drop 4 s) = Some (cap, rest)"
    by (simp add: match_url_def split: if_splits)
  from rx_space_shorter [OF this] show ?thesis by simp
qed

text \<open>\<open>cssText.matchAll(urlRegex)\<close>: group 1 of the successive matches, left to right.\<close>

function url_matches :: "jsstring \<Rightarrow> jsstring list" where
  "url_matches [] = []"
| "url_matches (c # cs) =
     (case match_url (c # cs) of
        Some (cap, rest) \<Rightarrow> cap # url_matches rest
      | None \<Rightarrow> url_matches cs)"
  by pat_completeness auto
termination
  by (relation "measure length") (auto dest: match_url_shorter)


text \<open>\<open>new Set(...)\<close> keeps the first occurrence of each element, in insertion order.\<close>

definition set_add :: "jsstring list \<Rightarrow> jsstring \<Rightarrow> jsstring list" where
  "set_add seen u = (if u \<in> set seen then seen else seen @ [u])"

definition uniqueUrls :: "jsstring \<Rightarrow> jsstring list" where
  "uniqueUrls cssText =
     foldl set_add []
       (filter (\<lambda>u. \<not> prefix (js ''data:'') u \<and> \<not> prefix (js ''#'') u) (url_matches cssText))"

text \<open>\<open>urlMap.set(key, value)\<close> on a \<open>Map\<close>, which iterates in insertion order.\<close>

fun map_set :: "(jsstring \<times> jsstring) list \<Rightarrow> jsstring \<Rightarrow> jsstring \<Rightarrow> (jsstring \<times> jsstring) list" where
  "map_set [] k v = [(k, v)]"
| "map_set ((k', v') # m) k v = (if k' = k then (k, v) # m else (k', v') # map_set m k v)"

text \<open>
  The fetches of \<open>Promise.all\<close> run concurrently, and each callback adds to \<open>urlMap\<close> when
  its fetch completes: \<open>completion u\<close> is the time at which the fetch of \<open>u\<close> completes, so
  that the callbacks run in the order of these times (in the order of launch when the
  times are the same). A URL whose fetch gives \<open>null\<close> (or an empty string) is not added.
  When one of the fetches never returns, neither does \<open>Promise.all\<close>.
\<close>

definition url_map ::
  "page \<Rightarrow> (jsstring \<Rightarrow> nat) \<Rightarrow> jsstring \<Rightarrow> jsstring \<Rightarrow> (jsstring \<times> jsstring) list option"
where
  "url_map page completion cssText baseUrl =
     (if list_ex (\<lambda>originalUrl. fetchAsDataUrl page originalUrl baseUrl = None)
           (uniqueUrls cssText)
      then None
      else Some
        (foldl (\<lambda>urlMap originalUrl.
                  case Option.bind (fetchAsDataUrl page originalUrl baseUrl) fst of
                    None \<Rightarrow> urlMap
                  | Some dataUrl \<Rightarrow>
                      if dataUrl = [] then urlMap else map_set urlMap originalUrl dataUrl)
           [] (sort_key completion (uniqueUrls cssText))))"

text \<open>
  \<open>result.split(pattern).join(replacement)\<close> for a pattern that is not empty (every
  pattern here begins with \<open>url(\<close>): the occurrences of the pattern are found left to
  right, each search starting after the occurrence before.
\<close>

function split_join :: "jsstring \<Rightarrow> jsstring \<Rightarrow> jsstring \<Rightarrow> jsstring" where
  "split_join pat rep [] = []"
| "split_join pat rep (c # cs) =
     (if pat \<noteq> [] \<and> prefix pat (c # cs)
      then rep @ split_join pat rep (drop (length pat) (c # cs))
      else c # split_join pat rep cs)"
  by pat_completeness auto
termination
  by (relation "measure (\<lambda>(pat, rep, s). length s)") auto

definition url_patterns :: "jsstring \<Rightarrow> jsstring list" where
  "url_patterns originalUrl =
     [js ''url('' @ [34] @ originalUrl @ [34] @ js '')'',
      js ''url('' @ [39] @ originalUrl @ [39] @ js '')'',
      js ''url('' @ originalUrl @ js '')'']"

definition url_replacement :: "jsstring \<Rightarrow> jsstring" where
  "url_replacement dataUrl = js ''url('' @ [34] @ dataUrl @ [34] @ js '')''"

definition rewrite_url :: "jsstring \<Rightarrow> jsstring \<times> jsstring \<Rightarrow> jsstring" where
  "rewrite_url result entry =
     foldl (\<lambda>r pat. split_join pat (url_replacement (snd entry)) r) result
       (url_patterns (fst entry))"

definition rewrite_urls :: "(jsstring \<times> jsstring) list \<Rightarrow> jsstring \<Rightarrow> jsstring" where
  "rewrite_urls urlMap cssText = foldl rewrite_url cssText urlMap"

definition processCssUrls ::
  "page \<Rightarrow> (jsstring \<Rightarrow> nat) \<Rightarrow> jsstring \<Rightarrow> jsstring \<Rightarrow> jsstring option"
where
  "processCssUrls page completion cssText baseUrl =
     (if url_matches cssText = [] then Some cssText
      else map_option (\<lambda>urlMap. rewrite_urls urlMap cssText)
             (url_map page completion cssText baseUrl))"

subsection \<open>\<open>processStyleSheet\<close>\<close>

text \<open>
  The \<open>catch\<close> branch of \<open>processStyleSheet\<close>: the sheet is fetched by its \<open>href\<close>, with
  no timer on the request.
\<close>

definition stylesheet_fallback ::
  "page \<Rightarrow> (jsstring \<Rightarrow> nat) \<Rightarrow> sheet \<Rightarrow> jsstring option" where
  "stylesheet_fallback page completion sheet =
     (if href sheet = [] then Some []
      else case network page (href sheet) of
             Rejected e \<Rightarrow> Some []
           | NoResponse \<Rightarrow> None
           | Responded ok text_read \<Rightarrow>
               if \<not> ok then Some []
               else (case text_read of
                       BodyFails e \<Rightarrow> Some []
                     | BodyStalls \<Rightarrow> None
                     | Body b \<Rightarrow>
                         processCssUrls page completion (TextDecoder_decode (blob_bytes b))
                           (href sheet)))"

text \<open>
  \<open>processStyleSheet(sheet, depth)\<close> and the loop over the rules of a sheet, which calls
  it for the imported sheets: \<open>Sheet s depth\<close> is the call for sheet \<open>s\<close>, and
  \<open>Rules rules depth cssText\<close> is the loop at the rules still to be visited, with the
  text gathered so far. The value is \<open>None\<close> when the call does not return.
\<close>

datatype visit = Sheet nat nat | Rules "rule list" nat jsstring

partial_function (option) processStyleSheet_visit ::
  "page \<Rightarrow> (jsstring \<Rightarrow> nat) \<Rightarrow> visit \<Rightarrow> jsstring option"
where
  "processStyleSheet_visit page completion v =
     (case v of
        Sheet s depth \<Rightarrow>
          if depth > 5 then Some []
          else (case cssRules (sheet_of page s) of
                  None \<Rightarrow> stylesheet_fallback page completion (sheet_of page s)
                | Some rules \<Rightarrow>
                    Option.bind (processStyleSheet_visit page completion (Rules rules depth []))
                      (\<lambda>cssText. processCssUrls page completion cssText
                          (if href (sheet_of page s) = [] then location_href page
                           else href (sheet_of page s))))
      | Rules [] depth cssText \<Rightarrow> Some cssText
      | Rules (r # rules) depth cssText \<Rightarrow>
          (case r of
             ImportRule (Some imported) rule_text \<Rightarrow>
               Option.bind (processStyleSheet_visit page completion (Sheet imported (depth + 1)))
                 (\<lambda>css. processStyleSheet_visit page completion (Rules rules depth (cssText @ css)))
           | ImportRule None rule_text \<Rightarrow>
               processStyleSheet_visit page completion (Rules rules depth (cssText @ rule_text @ [10]))
           | StyleRule rule_text \<Rightarrow>
               processStyleSheet_visit page completion (Rules rules depth (cssText @ rule_text @ [10]))))"

definition processStyleSheet ::
  "page \<Rightarrow> (jsstring \<Rightarrow> nat) \<Rightarrow> nat \<Rightarrow> nat \<Rightarrow> jsstring option" where
  "processStyleSheet page completion s depth =
     processStyleSheet_visit page completion (Sheet s depth)"

section \<open>Capture: the document tree\<close>

text \<open>
  A node of the document tree: an element or a text node. An element has a namespace, of
  which the model keeps whether it is the HTML namespace, its local name, its attributes
  in order (qualified name and value, as \<open>el.attributes\<close> lists them) and its children.
  A document is the list of the children of the \<open>Document\<close> node.
\<close>

datatype node =
    Element bool jsstring "(jsstring \<times> jsstring) list" "node list"
  | TextNode jsstring


fun local_name :: "node \<Rightarrow> jsstring" where
  "local_name (Element is_html name attrs children) = name"
| "local_name (TextNode t) = []"

fun attributes :: "node \<Rightarrow> (jsstring \<times> jsstring) list" where
  "attributes (Element is_html name attrs children) = attrs"
| "attributes (TextNode t) = []"

fun is_element :: "node \<Rightarrow> bool" where
  "is_element (Element is_html name attrs children) = True"
| "is_element (TextNode t) = False"

text \<open>The elements of a tree, in document order: what \<open>querySelectorAll('*')\<close> lists.\<close>

fun elements :: "node \<Rightarrow> node list" where
  "elements (Element is_html name attrs children) =
     Element is_html name attrs children # concat (map elements children)"
| "elements (TextNode t) = []"

definition document_elements :: "node list \<Rightarrow> node list" where
  "document_elements doc = concat (map elements doc)"

text \<open>
  \<open>doc.querySelectorAll(selector).forEach(el => el.remove())\<close>: every element that the
  selector matches leaves the tree, with its subtree.
\<close>

fun remove_matching :: "(node \<Rightarrow> bool) \<Rightarrow> node \<Rightarrow> node" where
  "remove_matching sel (Element is_html name attrs children) =
     Element is_html name attrs (map (remove_matching sel) (filter (\<lambda>c. \<not> sel c) children))"
| "remove_matching sel (TextNode t) = TextNode t"

definition remove_all :: "(node \<Rightarrow> bool) \<Rightarrow> node list \<Rightarrow> node list" where
  "remove_all sel doc = map (remove_matching sel) (filter (\<lambda>c. \<not> sel c) doc)"

definition ascii_lower :: "jsstring \<Rightarrow> jsstring" where
  "ascii_lower s = map (\<lambda>c. if 65 \<le> c \<and> c \<le> 90 then c + 32 else c) s"

subsection \<open>\<open>removeScripts\<close>\<close>

definition script_selector :: "node \<Rightarrow> bool" where
  "script_selector n \<longleftrightarrow>
     is_element n \<and> (local_name n = js ''script'' \<or> local_name n = js ''noscript'')"

text \<open>
  \<open>el.removeAttribute(name)\<close> removes the first attribute whose qualified name is
  \<open>name\<close>; on an element in the HTML namespace (the document is an HTML document) the
  name is put in ASCII lower case before the search.
\<close>

fun remove_first :: "jsstring \<Rightarrow> (jsstring \<times> jsstring) list \<Rightarrow> (jsstring \<times> jsstring) list" where
  "remove_first name [] = []"
| "remove_first name (a # attrs) =
     (if fst a = name then attrs else a # remove_first name attrs)"

definition removeAttribute ::
  "bool \<Rightarrow> jsstring \<Rightarrow> (jsstring \<times> jsstring) list \<Rightarrow> (jsstring \<times> jsstring) list" where
  "removeAttribute is_html name attrs = remove_first (if is_html then ascii_lower name else name) attrs"

definition executable :: "jsstring \<times> jsstring \<Rightarrow> bool" where
  "executable attr \<longleftrightarrow>
     prefix (js ''on'') (fst attr) \<or>
     (fst attr = js ''href'' \<and> prefix (js ''javascript:'') (snd attr))"

text \<open>
  \<open>[...el.attributes].forEach(attr => ...)\<close>: the loop runs over a copy of the attribute
  list and removes from the element.
\<close>

definition strip_attributes ::
  "bool \<Rightarrow> (jsstring \<times> jsstring) list \<Rightarrow> (jsstring \<times> jsstring) list" where
  "strip_attributes is_html attrs =
     foldl (\<lambda>current attr.
              if executable attr then removeAttribute is_html (fst attr) current else current)
       attrs attrs"

fun strip_handlers :: "node \<Rightarrow> node" where
  "strip_handlers (Element is_html name attrs children) =
     Element is_html name (strip_attributes is_html attrs) (map strip_handlers children)"
| "strip_handlers (TextNode t) = TextNode t"

definition removeScripts :: "node list \<Rightarrow> node list" where
  "removeScripts doc = map strip_handlers (remove_all script_selector doc)"

subsection \<open>\<open>removeExternalResources\<close>\<close>

text \<open>
  The selector list of \<open>removeExternalResources\<close>; the value of \<open>rel\<close> is compared without
  regard to ASCII case, as selectors do for this attribute in an HTML document.
\<close>

definition external_selector :: "node \<Rightarrow> bool" where
  "external_selector n \<longleftrightarrow>
     is_element n \<and>
     (local_name n = js ''style'' \<or>
      (local_name n = js ''link'' \<and>
       (case map_of (attributes n) (js ''rel'') of
          None \<Rightarrow> False
        | Some rel \<Rightarrow>
            ascii_lower rel \<in> {js ''stylesheet'', js ''preload'', js ''prefetch'',
              js ''modulepreload'', js ''preconnect'', js ''dns-prefetch''})))"

definition removeExternalResources :: "node list \<Rightarrow> node list" where
  "removeExternalResources doc = remove_all external_selector doc"

section \<open>Capture: the main logic\<close>

text \<open>
  The live document as the capture reads it: the numbers of the sheets in
  \<open>document.styleSheets\<close>, the root element, and the title.
\<close>

record live_document =
  styleSheets :: "nat list"
  documentElement :: "node option"
  document_title :: jsstring

text \<open>
  The passes over images, inline backgrounds, SVG images, canvases and frames read pixel
  data and frame contents of the live page; they are one function of the model, from the
  sanitized clone to the rewritten clone or to the error they throw, and \<open>None\<close> when
  they never finish. \<open>outerHTML\<close> is the serialization of the platform.
\<close>

record renderer =
  inline_resources :: "node list \<Rightarrow> (thrown + node list) option"
  outerHTML :: "node \<Rightarrow> jsstring"

fun textContent :: "node \<Rightarrow> jsstring" where
  "textContent (Element is_html name attrs children) = concat (map textContent children)"
| "textContent (TextNode t) = t"

fun join :: "jsstring \<Rightarrow> jsstring list \<Rightarrow> jsstring" where
  "join sep [] = []"
| "join sep [x] = x"
| "join sep (x # y # xs) = x @ sep @ join sep (y # xs)"

text \<open>
  \<open>getAllStylesheetCSS\<close>: every sheet of the document at depth 0, then every \<open>style\<close>
  element with text; \<open>Promise.all\<close> waits for all of them; the empty results are dropped
  and the rest joined by newlines.
\<close>

definition getAllStylesheetCSS ::
  "page \<Rightarrow> (jsstring \<Rightarrow> nat) \<Rightarrow> live_document \<Rightarrow> jsstring option" where
  "getAllStylesheetCSS page completion live =
     (case those
        (map (\<lambda>s. processStyleSheet page completion s 0) (styleSheets live) @
         map (\<lambda>style. processCssUrls page completion (textContent style) (location_href page))
           (filter (\<lambda>e. local_name e = js ''style'' \<and> textContent e \<noteq> [])
              (case documentElement live of None \<Rightarrow> [] | Some html_element \<Rightarrow> elements html_element))) of
        None \<Rightarrow> None
      | Some cssTexts \<Rightarrow> Some (join [10] (filter (\<lambda>css. css \<noteq> []) cssTexts)))"

text \<open>
  \<open>tempDoc.head\<close> is the first \<open>head\<close> child of the root when the root is an \<open>html\<close>
  element. \<open>update_head f doc\<close> applies \<open>f\<close> to the children of the head, and is \<open>None\<close>
  when there is no head (reading a property of \<open>null\<close> throws a \<open>TypeError\<close>).
\<close>

fun update_first_head :: "(node list \<Rightarrow> node list) \<Rightarrow> node list \<Rightarrow> node list option" where
  "update_first_head f [] = None"
| "update_first_head f (Element is_html name attrs children # ns) =
     (if is_html \<and> name = js ''head'' then Some (Element is_html name attrs (f children) # ns)
      else map_option (\<lambda>r. Element is_html name attrs children # r) (update_first_head f ns))"
| "update_first_head f (TextNode t # ns) =
     map_option (\<lambda>r. TextNode t # r) (update_first_head f ns)"

fun update_head :: "(node list \<Rightarrow> node list) \<Rightarrow> node list \<Rightarrow> node list option" where
  "update_head f [Element is_html name attrs children] =
     (if is_html \<and> name = js ''html''
      then map_option (\<lambda>r. [Element is_html name attrs r]) (update_first_head f children)
      else None)"
| "update_head f doc = None"

definition TypeError :: "string \<Rightarrow> thrown" where
  "TypeError property =
     Thrown (js ''Cannot read properties of null (reading '' @ [39] @ js property @ [39] @
             js '')'')"

definition has_charset :: "node list \<Rightarrow> bool" where
  "has_charset doc \<longleftrightarrow>
     list_ex (\<lambda>e. local_name e = js ''meta'' \<and> map_of (attributes e) (js ''charset'') \<noteq> None)
       (document_elements doc)"

definition base_selector :: "node \<Rightarrow> bool" where
  "base_selector n \<longleftrightarrow> is_element n \<and> local_name n = js ''base''"

text \<open>
  The body of the \<open>try\<close> block after the style text is known: the serialized document, or
  the error thrown on the way.
\<close>

definition capture_document ::
  "renderer \<Rightarrow> live_document \<Rightarrow> jsstring \<Rightarrow> (thrown + jsstring) option" where
  "capture_document renderer live allCSS =
     (case documentElement live of
        None \<Rightarrow> Some (Inl (TypeError ''cloneNode''))
      | Some docClone \<Rightarrow>
          (case inline_resources renderer (removeExternalResources (removeScripts [docClone])) of
             None \<Rightarrow> None
           | Some (Inl err) \<Rightarrow> Some (Inl err)
           | Some (Inr tempDoc) \<Rightarrow>
               (case update_head
                       (\<lambda>children. children @ [Element True (js ''style'') [] [TextNode allCSS]])
                       tempDoc of
                  None \<Rightarrow> Some (Inl (TypeError ''appendChild''))
                | Some styled \<Rightarrow>
                    (case (if has_charset styled then Some styled
                           else update_head
                                  (\<lambda>children.
                                     Element True (js ''meta'') [(js ''charset'', js ''UTF-8'')] [] #
                                     children)
                                  styled) of
                       None \<Rightarrow> Some (Inl (TypeError ''prepend''))
                     | Some with_meta \<Rightarrow>
                         (case remove_all base_selector with_meta of
                            [] \<Rightarrow> Some (Inl (TypeError ''outerHTML''))
                          | html_element # rest \<Rightarrow>
                              Some (Inr (js ''<!DOCTYPE html>'' @ [10] @ outerHTML renderer html_element)))))))"

record CaptureResult =
  success :: bool
  result_html :: "jsstring option"
  result_title :: "jsstring option"
  result_sourceUrl :: "jsstring option"
  error :: "jsstring option"

text \<open>
  \<open>capturePageSnapshot\<close>: the \<open>try\<close> block and its \<open>catch\<close>. The result is \<open>None\<close> when
  the function does not return.
\<close>

definition capturePageSnapshot ::
  "page \<Rightarrow> (jsstring \<Rightarrow> nat) \<Rightarrow> renderer \<Rightarrow> live_document \<Rightarrow> CaptureResult option"
where
  "capturePageSnapshot page completion renderer live =
     (case getAllStylesheetCSS page completion live of
        None \<Rightarrow> None
      | Some allCSS \<Rightarrow>
          (case capture_document renderer live allCSS of
             None \<Rightarrow> None
           | Some (Inr markup) \<Rightarrow>
               Some \<lparr>success = True, result_html = Some markup,
                     result_title = Some (document_title live),
                     result_sourceUrl = Some (location_href page), error = None\<rparr>
           | Some (Inl err) \<Rightarrow>
               Some \<lparr>success = False, result_html = None, result_title = None,
                     result_sourceUrl = None,
                     error = Some (if message err = [] then js ''Capture failed'' else message err)\<rparr>))"

section \<open>Properties of the style text rewriting\<close>

subsection \<open>The shape of a match\<close>











subsection \<open>Text that a replacement leaves in place\<close>








subsection \<open>References whose fetch fails\<close>















text \<open>
  A page at \<open>https://a.example/\<close> where one resource, \<open>x\<close>, can be fetched: a PNG image
  of one byte. Every other request fails.
\<close>

definition png_blob :: blob where
  "png_blob = \<lparr>blob_type = js ''image/png'', blob_bytes = [1], readable = True\<rparr>"

definition one_image_page :: page where
  "one_image_page =
     \<lparr>location_href = js ''https://a.example/'',
      resolve_url = (\<lambda>url base. if url = js ''http://'' then None
                                else if prefix (js ''data:'') url then Some url
                                else Some (base @ url)),
      network = (\<lambda>url. if url = js ''https://a.example/x'' then Responded True (Body png_blob)
                         else Rejected (Thrown (js ''Failed to fetch''))),
      sheet_of = (\<lambda>n. \<lparr>href = [], cssRules = Some []\<rparr>)\<rparr>"











section \<open>Properties of the resource fetcher\<close>






section \<open>Properties of the style sheet walk\<close>

text \<open>Every request of the page settles: it is answered, and the body of a success arrives.\<close>

definition requests_settle :: "page \<Rightarrow> bool" where
  "requests_settle page \<longleftrightarrow>
     (\<forall>u. network page u \<noteq> NoResponse \<and> network page u \<noteq> Responded True BodyStalls)"

lemma fetchAsDataUrl_settles:
  "requests_settle page \<Longrightarrow> \<exists>r. fetchAsDataUrl page url baseUrl = Some r"
  by (auto simp: fetchAsDataUrl_def requests_settle_def
      split: option.splits fetched.splits body_read.splits)

lemma processCssUrls_settles:
  assumes "requests_settle page"
  shows "\<exists>css. processCssUrls page completion cssText baseUrl = Some css"
proof -
  have "\<not> list_ex (\<lambda>originalUrl. fetchAsDataUrl page originalUrl baseUrl = None)
           (uniqueUrls cssText)"
    using fetchAsDataUrl_settles [OF assms] by (auto simp: list_ex_iff)
  then show ?thesis
    by (simp add: processCssUrls_def url_map_def)
qed

lemma stylesheet_fallback_settles:
  assumes "requests_settle page"
  shows "\<exists>css. stylesheet_fallback page completion sheet = Some css"
proof (cases "network page (href sheet)")
  case (Rejected e)
  then show ?thesis by (simp add: stylesheet_fallback_def)
next
  case NoResponse
  with assms show ?thesis by (simp add: requests_settle_def)
next
  case (Responded ok text_read)
  show ?thesis
  proof (cases text_read)
    case (BodyFails e)
    with Responded show ?thesis by (simp add: stylesheet_fallback_def)
  next
    case (Body b)
    with Responded processCssUrls_settles [OF assms] show ?thesis
      by (simp add: stylesheet_fallback_def)
  next
    case BodyStalls
    with Responded assms have "\<not> ok" by (cases ok) (auto simp: requests_settle_def)
    with Responded show ?thesis by (simp add: stylesheet_fallback_def)
  qed
qed



lemma visit_rules_total:
  assumes "\<And>s. \<exists>css. processStyleSheet_visit page completion (Sheet s (depth + 1)) = Some css"
  shows "\<exists>css. processStyleSheet_visit page completion (Rules rules depth cssText) = Some css"
proof (induction rules arbitrary: cssText)
  case Nil
  show ?case by (subst processStyleSheet_visit.simps) simp
next
  case (Cons r rules)
  show ?case
  proof (cases r)
    case (ImportRule target rtext)
    show ?thesis
    proof (cases target)
      case None
      with ImportRule Cons [of "cssText @ rtext @ [10]"] show ?thesis
        by (subst processStyleSheet_visit.simps) simp
    next
      case (Some imported)
      from assms obtain css where
        "processStyleSheet_visit page completion (Sheet imported (depth + 1)) = Some css"
        by blast
      with ImportRule Some Cons [of "cssText @ css"] show ?thesis
        by (subst processStyleSheet_visit.simps) simp
    qed
  next
    case (StyleRule rtext)
    with Cons [of "cssText @ rtext @ [10]"] show ?thesis
      by (subst processStyleSheet_visit.simps) simp
  qed
qed

lemma visit_sheet_total:
  assumes "requests_settle page"
  shows "\<exists>css. processStyleSheet_visit page completion (Sheet s depth) = Some css"
proof (induction "6 - depth" arbitrary: s depth rule: less_induct)
  case less
  show ?case
  proof (cases "depth > 5")
    case True
    then show ?thesis by (subst processStyleSheet_visit.simps) simp
  next
    case False
    show ?thesis
    proof (cases "cssRules (sheet_of page s)")
      case None
      with False stylesheet_fallback_settles [OF assms] show ?thesis
        by (subst processStyleSheet_visit.simps) simp
    next
      case (Some rules)
      have "\<exists>css. processStyleSheet_visit page completion (Sheet s' (depth + 1)) = Some css" for s'
        using False by (intro less) simp
      from visit_rules_total [of page completion depth rules "[]", OF this]
      obtain css where c: "processStyleSheet_visit page completion (Rules rules depth []) = Some css"
        by blast
      from processCssUrls_settles [OF assms] obtain out where
        "processCssUrls page completion css
           (if href (sheet_of page s) = [] then location_href page else href (sheet_of page s)) =
         Some out" by blast
      with False Some c show ?thesis by (subst processStyleSheet_visit.simps) simp
    qed
  qed
qed









section \<open>Properties of the sanitizer\<close>
















section \<open>Properties of the capture result\<close>

lemma those_total: "(\<And>x. x \<in> set xs \<Longrightarrow> \<exists>y. x = Some y) \<Longrightarrow> \<exists>ys. those xs = Some ys"
proof (induction xs)
  case Nil
  then show ?case by simp
next
  case (Cons x xs)
  then obtain y ys where "x = Some y" "those xs = Some ys" by (metis list.set_intros)
  then show ?case by simp
qed

lemma getAllStylesheetCSS_total:
  assumes "requests_settle page"
  shows "\<exists>css. getAllStylesheetCSS page completion live = Some css"
proof -
  have "\<exists>ys. those
        (map (\<lambda>s. processStyleSheet page completion s 0) (styleSheets live) @
         map (\<lambda>style. processCssUrls page completion (textContent style) (location_href page))
           (filter (\<lambda>e. local_name e = js ''style'' \<and> textContent e \<noteq> [])
              (case documentElement live of None \<Rightarrow> [] | Some html_element \<Rightarrow> elements html_element))) =
      Some ys"
  proof (rule those_total)
    fix x
    assume "x \<in> set (map (\<lambda>s. processStyleSheet page completion s 0) (styleSheets live) @
         map (\<lambda>style. processCssUrls page completion (textContent style) (location_href page))
           (filter (\<lambda>e. local_name e = js ''style'' \<and> textContent e \<noteq> [])
              (case documentElement live of None \<Rightarrow> [] | Some html_element \<Rightarrow> elements html_element)))"
    then consider s where "x = processStyleSheet page completion s 0"
      | style where "x = processCssUrls page completion (textContent style) (location_href page)"
      by auto
    then show "\<exists>y. x = Some y"
    proof cases
      case 1
      with visit_sheet_total [OF assms] show ?thesis by (simp add: processStyleSheet_def)
    next
      case 2
      with processCssUrls_settles [OF assms] show ?thesis by simp
    qed
  qed
  then show ?thesis by (auto simp: getAllStylesheetCSS_def)
qed

lemma update_head_element:
  "update_head f d = Some r \<Longrightarrow> \<exists>is_html name attrs children. r = [Element is_html name attrs children]"
  by (cases "(f, d)" rule: update_head.cases) (auto split: if_splits)

lemma remove_all_element:
  "remove_all sel [Element is_html name attrs children] = n # rest \<Longrightarrow> is_element n"
  by (auto simp: remove_all_def split: if_splits)

lemma capture_document_shape:
  assumes "capture_document renderer live allCSS = Some (Inr markup)"
  shows "\<exists>html_element. is_element html_element \<and>
     markup = js ''<!DOCTYPE html>'' @ [10] @ outerHTML renderer html_element"
proof -
  from assms obtain tempDoc styled with_meta html_element rest where
    s: "update_head (\<lambda>children. children @ [Element True (js ''style'') [] [TextNode allCSS]])
          tempDoc = Some styled"
    and w: "(if has_charset styled then Some styled
             else update_head
                    (\<lambda>children.
                       Element True (js ''meta'') [(js ''charset'', js ''UTF-8'')] [] # children)
                    styled) = Some with_meta"
    and r: "remove_all base_selector with_meta = html_element # rest"
    and m: "markup = js ''<!DOCTYPE html>'' @ [10] @ outerHTML renderer html_element"
    unfolding capture_document_def
    by (auto split: option.splits sum.splits list.splits)
  have "\<exists>is_html name attrs children. with_meta = [Element is_html name attrs children]"
  proof (cases "has_charset styled")
    case True
    with w have "with_meta = styled" by simp
    with update_head_element [OF s] show ?thesis by simp
  next
    case False
    with w update_head_element show ?thesis by auto
  qed
  with r remove_all_element have "is_element html_element" by blast
  with m show ?thesis by blast
qed

text \<open>
  Claim C1. Whenever \<open>capturePageSnapshot\<close> returns, the result has one of two shapes:
  with \<open>success\<close> false, \<open>error\<close> is a string that is not empty and there is no \<open>html\<close>;
  with \<open>success\<close> true, \<open>html\<close> is the DOCTYPE declaration, a line feed and the
  serialization of the root element of the document that was built, and there is no
  \<open>error\<close>. It does return when every request of the page settles and the passes over
  the images and frames finish.
\<close>

theorem capture_result_shape:
  "(\<forall>r. capturePageSnapshot page completion renderer live = Some r \<longrightarrow>
      (\<not> success r \<longrightarrow> (\<exists>msg. error r = Some msg \<and> msg \<noteq> []) \<and> result_html r = None) \<and>
      (success r \<longrightarrow>
         (\<exists>html_element. is_element html_element \<and>
            result_html r =
              Some (js ''<!DOCTYPE html>'' @ [10] @ outerHTML renderer html_element)) \<and>
         error r = None)) \<and>
   ((\<forall>u. network page u \<noteq> NoResponse \<and> network page u \<noteq> Responded True BodyStalls) \<and>
    (\<forall>doc. inline_resources renderer doc \<noteq> None) \<longrightarrow>
      (\<exists>r. capturePageSnapshot page completion renderer live = Some r))"
proof (rule conjI)
  show "\<forall>r. capturePageSnapshot page completion renderer live = Some r \<longrightarrow>
      (\<not> success r \<longrightarrow> (\<exists>msg. error r = Some msg \<and> msg \<noteq> []) \<and> result_html r = None) \<and>
      (success r \<longrightarrow>
         (\<exists>html_element. is_element html_element \<and>
            result_html r =
              Some (js ''<!DOCTYPE html>'' @ [10] @ outerHTML renderer html_element)) \<and>
         error r = None)"
  proof (intro allI impI)
    fix r
    assume r: "capturePageSnapshot page completion renderer live = Some r"
    then obtain allCSS outcome where
      o: "capture_document renderer live allCSS = Some outcome" and
      v: "r = (case outcome of
            Inr markup \<Rightarrow>
              \<lparr>success = True, result_html = Some markup,
               result_title = Some (document_title live),
               result_sourceUrl = Some (location_href page), error = None\<rparr>
          | Inl err \<Rightarrow>
              \<lparr>success = False, result_html = None, result_title = None,
               result_sourceUrl = None,
               error = Some (if message err = [] then js ''Capture failed'' else message err)\<rparr>)"
      by (auto simp: capturePageSnapshot_def split: option.splits sum.splits)
    show "(\<not> success r \<longrightarrow> (\<exists>msg. error r = Some msg \<and> msg \<noteq> []) \<and> result_html r = None) \<and>
      (success r \<longrightarrow>
         (\<exists>html_element. is_element html_element \<and>
            result_html r =
              Some (js ''<!DOCTYPE html>'' @ [10] @ outerHTML renderer html_element)) \<and>
         error r = None)"
    proof (cases outcome)
      case (Inl err)
      with v show ?thesis by simp
    next
      case (Inr markup)
      from capture_document_shape [OF o [unfolded Inr]] Inr v show ?thesis by simp
    qed
  qed
next
  show "(\<forall>u. network page u \<noteq> NoResponse \<and> network page u \<noteq> Responded True BodyStalls) \<and>
    (\<forall>doc. inline_resources renderer doc \<noteq> None) \<longrightarrow>
      (\<exists>r. capturePageSnapshot page completion renderer live = Some r)"
  proof
    assume a: "(\<forall>u. network page u \<noteq> NoResponse \<and> network page u \<noteq> Responded True BodyStalls) \<and>
      (\<forall>doc. inline_resources renderer doc \<noteq> None)"
    then have "requests_settle page" by (simp add: requests_settle_def)
    from getAllStylesheetCSS_total [OF this] obtain allCSS where
      c: "getAllStylesheetCSS page completion live = Some allCSS" by blast
    from a have i: "inline_resources renderer d \<noteq> None" for d by simp
    have "capture_document renderer live allCSS \<noteq> None"
    proof (cases "documentElement live")
      case None
      then show ?thesis by (simp add: capture_document_def)
    next
      case (Some docClone)
      with i [of "removeExternalResources (removeScripts [docClone])"] show ?thesis
        by (auto simp: capture_document_def split: option.splits sum.splits list.splits)
    qed
    with c show "\<exists>r. capturePageSnapshot page completion renderer live = Some r"
      by (auto simp: capturePageSnapshot_def split: option.splits sum.splits)
  qed
qed

text \<open>
  A renderer whose passes leave the clone as it is and whose serialization writes the
  tags without attributes; a document with a style element and a script; and a document
  without a head, on the page with one image.
\<close>

fun tags :: "node \<Rightarrow> jsstring" where
  "tags (Element is_html name attrs children) =
     js ''<'' @ name @ js ''>'' @ concat (map tags children) @ js ''</'' @ name @ js ''>''"
| "tags (TextNode t) = t"

definition plain_renderer :: renderer where
  "plain_renderer = \<lparr>inline_resources = (\<lambda>doc. Some (Inr doc)), outerHTML = tags\<rparr>"

definition small_document :: live_document where
  "small_document =
     \<lparr>styleSheets = [],
      documentElement = Some
        (Element True (js ''html'') []
           [Element True (js ''head'') []
              [Element True (js ''style'') [] [TextNode (js ''p{background:url(x)}'')],
               Element True (js ''script'') [] [TextNode (js ''go()'')]],
            Element True (js ''body'') [] [Element True (js ''p'') [] [TextNode (js ''hi'')]]]),
      document_title = js ''Small''\<rparr>"

definition headless_document :: live_document where
  "headless_document =
     \<lparr>styleSheets = [],
      documentElement = Some (Element False (js ''svg'') [] []),
      document_title = []\<rparr>"

lemma js_eq: "js a = js b \<longleftrightarrow> a = b"
  by (simp add: js_def inj_map_eq_map inj_of_char)

lemma small_css:
  "getAllStylesheetCSS one_image_page (\<lambda>u. 0) small_document =
     Some (js ''p{background:url('' @ [34] @ js ''data:image/png;base64,AQ=='' @ [34] @ js '')}'')"
proof -
  have u: "uniqueUrls (js ''p{background:url(x)}'') = [js ''x'']"
    "url_matches (js ''p{background:url(x)}'') \<noteq> []"
    by (simp_all add: uniqueUrls_def match_url_def js_def rx_quote_def rx_tail_def
        is_space_def is_quote_def set_add_def)
  have l: "location_href one_image_page = js ''https://a.example/''"
    by (simp add: one_image_page_def)
  have f: "fetchAsDataUrl one_image_page (js ''x'') (js ''https://a.example/'') =
     Some (Some (js ''data:image/png;base64,AQ==''), [js ''https://a.example/x''])"
    by (simp add: fetchAsDataUrl_def one_image_page_def png_blob_def readAsDataURL_def
        js_def b64_char_def)
  have m: "url_map one_image_page (\<lambda>u. 0) (js ''p{background:url(x)}'') (js ''https://a.example/'') =
      Some [(js ''x'', js ''data:image/png;base64,AQ=='')]"
    unfolding url_map_def u by (simp add: f)
  have p: "processCssUrls one_image_page (\<lambda>u. 0) (js ''p{background:url(x)}'')
      (js ''https://a.example/'') =
     Some (js ''p{background:url('' @ [34] @ js ''data:image/png;base64,AQ=='' @ [34] @ js '')}'')"
    unfolding processCssUrls_def m using u(2)
    by (simp add: rewrite_urls_def rewrite_url_def url_patterns_def url_replacement_def js_def)
  show ?thesis
    unfolding getAllStylesheetCSS_def small_document_def
    by (simp add: l p js_eq)
qed

theorem capture_result_shape_witness:
  "capturePageSnapshot one_image_page (\<lambda>u. 0) plain_renderer small_document =
     Some \<lparr>success = True,
       result_html = Some (js ''<!DOCTYPE html>'' @ [10] @
         js ''<html><head><meta></meta><style>p{background:url('' @ [34] @
         js ''data:image/png;base64,AQ=='' @ [34] @
         js '')}</style></head><body><p>hi</p></body></html>''),
       result_title = Some (js ''Small''),
       result_sourceUrl = Some (js ''https://a.example/''), error = None\<rparr> \<and>
   capturePageSnapshot one_image_page (\<lambda>u. 0) plain_renderer headless_document =
     Some \<lparr>success = False, result_html = None, result_title = None, result_sourceUrl = None,
       error = Some (js ''Cannot read properties of null (reading '' @ [39] @
         js ''appendChild'' @ [39] @ js '')'')\<rparr>"
proof -
  have 1: "capturePageSnapshot one_image_page (\<lambda>u. 0) plain_renderer small_document =
     Some \<lparr>success = True,
       result_html = Some (js ''<!DOCTYPE html>'' @ [10] @
         js ''<html><head><meta></meta><style>p{background:url('' @ [34] @
         js ''data:image/png;base64,AQ=='' @ [34] @
         js '')}</style></head><body><p>hi</p></body></html>''),
       result_title = Some (js ''Small''),
       result_sourceUrl = Some (js ''https://a.example/''), error = None\<rparr>"
    unfolding capturePageSnapshot_def small_css
    by (simp add: capture_document_def small_document_def plain_renderer_def removeScripts_def
        removeExternalResources_def remove_all_def script_selector_def external_selector_def
        strip_attributes_def has_charset_def document_elements_def base_selector_def
        one_image_page_def js_def)
  have c: "getAllStylesheetCSS one_image_page (\<lambda>u. 0) headless_document = Some []"
    by (simp add: getAllStylesheetCSS_def headless_document_def js_def)
  have 2: "capturePageSnapshot one_image_page (\<lambda>u. 0) plain_renderer headless_document =
     Some \<lparr>success = False, result_html = None, result_title = None, result_sourceUrl = None,
       error = Some (js ''Cannot read properties of null (reading '' @ [39] @
         js ''appendChild'' @ [39] @ js '')'')\<rparr>"
    unfolding capturePageSnapshot_def c
    by (simp add: capture_document_def headless_document_def plain_renderer_def removeScripts_def
        removeExternalResources_def remove_all_def script_selector_def external_selector_def
        strip_attributes_def TypeError_def js_def)
  from capture_result_shape [of one_image_page "\<lambda>u. 0" plain_renderer small_document]
    capture_result_shape [of one_image_page "\<lambda>u. 0" plain_renderer headless_document]
    1 2
  show ?thesis by simp
qed

end
